(* ===== verification/Prelude.thy ===== *)
theory Prelude
  imports Main "HOL-Library.Multiset"
begin

text \<open>
  Shared vocabulary of the development: the JavaScript run-time errors the scraper
  can raise, and the JavaScript built-ins that \<open>src/main.js\<close> calls on strings and
  arrays (\<open>startsWith\<close>, \<open>split\<close>, indexing with \<open>undefined\<close> out of range,
  \<open>toUpperCase\<close>, string concatenation with \<open>undefined\<close>), and \<open>split\<close> with a
  string separator and \<open>join\<close>, which give the reference definition of a global
  replacement.  These are library
  behaviour, not code of the repository; they are modelled from the ECMAScript
  semantics for the inputs the scraper gives them (one-character separators, ASCII
  tag names).  The lemmas here are the generic facts on strings the component
  theories share.
\<close>

named_theorems js_simps "evaluation equations of the JavaScript built-ins"

section \<open>Errors and results\<close>

text \<open>
  The exceptions a run of the scraper can raise: a \<open>TypeError\<close> when a property of
  \<open>undefined\<close> is read (a missing \<open>href\<close>, a missing \<open>content_html\<close>), a
  \<open>RangeError\<close> when the recursion of \<open>parseTable\<close> exhausts the call stack, and a
  \<open>NetworkError\<close> for a failed HTTP request (axios rejects).
\<close>

datatype js_error = TypeError | RangeError | NetworkError

type_synonym 'a js_result = "js_error + 'a"

section \<open>String built-ins\<close>

text \<open>The double quote character, which \<open>parseTable\<close> writes for \<open>&quot;\<close> and \<open>JSON.stringify\<close>
  delimits strings with.\<close>

abbreviation quot :: char where
  "quot \<equiv> CHR 0x22"

text \<open>\<open>s.startsWith(p)\<close>.\<close>

fun starts_with :: "string \<Rightarrow> string \<Rightarrow> bool" where
  "starts_with s [] = True"
| "starts_with [] (c # cs) = False"
| "starts_with (x # xs) (c # cs) = (x = c \<and> starts_with xs cs)"

text \<open>\<open>s.includes(p)\<close>: \<open>p\<close> occurs at some position of \<open>s\<close>.\<close>

fun occurs :: "string \<Rightarrow> string \<Rightarrow> bool" where
  "occurs p [] = (p = [])"
| "occurs p (x # xs) = (starts_with (x # xs) p \<or> occurs p xs)"

text \<open>
  \<open>s.split(c)\<close> for a one-character separator: the maximal segments between
  occurrences of \<open>c\<close>, always at least one (\<open>''.split('/')\<close> is \<open>['']\<close>).
\<close>

fun js_split :: "char \<Rightarrow> string \<Rightarrow> string list" where
  "js_split c [] = [[]]"
| "js_split c (x # xs) =
     (if x = c then [] # js_split c xs
      else (let r = js_split c xs in (x # hd r) # tl r))"

text \<open>\<open>a[i]\<close> on an array: \<open>undefined\<close> (here \<open>None\<close>) beyond its end.\<close>

definition js_index :: "'a list \<Rightarrow> nat \<Rightarrow> 'a option" where
  "js_index xs i = (if i < length xs then Some (xs ! i) else None)"

text \<open>\<open>s.toUpperCase()\<close> on the ASCII letters tag names are made of.\<close>

definition upper_char :: "char \<Rightarrow> char" where
  "upper_char c =
     (case map_of (zip ''abcdefghijklmnopqrstuvwxyz'' ''ABCDEFGHIJKLMNOPQRSTUVWXYZ'') c of
        Some u \<Rightarrow> u
      | None \<Rightarrow> c)"

definition js_upper :: "string \<Rightarrow> string" where
  "js_upper s = map upper_char s"

text \<open>\<open>'...' + v\<close> for a value that is a string or \<open>undefined\<close>.\<close>

fun js_str :: "string option \<Rightarrow> string" where
  "js_str None = ''undefined''"
| "js_str (Some s) = s"

text \<open>\<open>s.split(sep)\<close> for a non-empty string separator: the segments between the
  occurrences of \<open>sep\<close>, found left to right without overlap.\<close>

function split_str :: "string \<Rightarrow> string \<Rightarrow> string list" where
  "split_str sep [] = [[]]"
| "split_str sep (x # xs) =
     (if sep \<noteq> [] \<and> starts_with (x # xs) sep then [] # split_str sep (drop (length sep) (x # xs))
      else (let r = split_str sep xs in (x # hd r) # tl r))"
  by pat_completeness auto
termination
  by (relation "measure (\<lambda>(sep, s). length s)") (auto simp: neq_Nil_conv)

text \<open>\<open>arr.join(sep)\<close> on an array of strings.\<close>

fun js_join :: "string \<Rightarrow> string list \<Rightarrow> string" where
  "js_join sep [] = []"
| "js_join sep [x] = x"
| "js_join sep (x # y # zs) = x @ sep @ js_join sep (y # zs)"

section \<open>Facts on the built-ins\<close>

lemma starts_with_iff: "starts_with s p \<longleftrightarrow> take (length p) s = p"
  by (induction s p rule: starts_with.induct) auto

lemma starts_with_append [simp]: "starts_with (p @ t) p"
  by (simp add: starts_with_iff)

lemma starts_with_length: "starts_with s p \<Longrightarrow> length p \<le> length s"
  by (induction s p rule: starts_with.induct) auto

lemma starts_with_Cons_iff:
  "starts_with s (c # cs) \<longleftrightarrow> (\<exists>t. s = c # t \<and> starts_with t cs)"
  by (cases s) auto

lemma starts_with_appendD:
  "starts_with (u @ t) q \<Longrightarrow> length u \<le> length q \<Longrightarrow> starts_with q u"
  by (induction u arbitrary: q) (auto simp: Suc_le_length_iff)

lemma occurs_Nil_pat [simp]: "occurs [] s"
  by (cases s) auto

lemma occurs_append_right: "occurs p t \<Longrightarrow> occurs p (u @ t)"
  by (induction u) auto

lemma occurs_ConsI: "occurs p xs \<Longrightarrow> occurs p (x # xs)"
  by simp

lemma occurs_drop: "occurs p (drop n s) \<Longrightarrow> occurs p s"
proof (induction s arbitrary: n)
  case Nil
  then show ?case by simp
next
  case (Cons x xs)
  then show ?case by (cases n) auto
qed

lemma js_split_not_Nil [simp]: "js_split c s \<noteq> []"
  by (induction s) (auto simp: Let_def)

lemma js_split_append_sep:
  "c \<notin> set u \<Longrightarrow> js_split c (u @ c # t) = u # js_split c t"
  by (induction u) (auto simp: Let_def)

lemma js_split_no_sep: "c \<notin> set u \<Longrightarrow> js_split c u = [u]"
  by (induction u) (auto simp: Let_def)

lemma js_index_Some [js_simps]:
  "i < length xs \<Longrightarrow> js_index xs i = Some (xs ! i)"
  by (simp add: js_index_def)

lemma js_index_None [js_simps]:
  "length xs \<le> i \<Longrightarrow> js_index xs i = None"
  by (simp add: js_index_def)

lemma split_str_not_Nil [simp]: "split_str sep s \<noteq> []"
  by (induction sep s rule: split_str.induct) (auto simp: Let_def)

lemma js_join_Cons_hd:
  "l \<noteq> [] \<Longrightarrow> js_join sep ((x # hd l) # tl l) = x # js_join sep l"
  by (cases l; cases "tl l") auto

lemma js_join_Nil_Cons:
  "l \<noteq> [] \<Longrightarrow> js_join sep ([] # l) = sep @ js_join sep l"
  by (cases l) auto

end
