(* ===== verification/Normalizer.thy ===== *)
theory Normalizer
  imports Prelude
begin

text \<open>
  The HTML normaliser of \<open>src/main.js\<close>: \<open>replaceAll\<close> (lines 190--192), the global
  replacement the scraper uses for entities, and \<open>getHTML\<close> (lines 177--181), which
  unescapes \<open>&lt;\<close> and \<open>&gt;\<close> in the \<open>content_html\<close> field of a wiki page
  before it is parsed.  The lemmas show which occurrences survive a replacement, that
  \<open>getHTML\<close> leaves no escaped angle bracket behind, and that the quote unescaping of
  \<open>parseTable\<close> inverts the escaping of a double quote.
\<close>

section \<open>Global replacement\<close>

text \<open>
  \<open>replaceAll(str, find, replace)\<close> is \<open>str.replace(new RegExp(find, 'g'), replace)\<close>.
  The three patterns the program passes (\<open>&quot;\<close>, \<open>&lt;\<close>, \<open>&gt;\<close>) contain no
  regular-expression operator and the replacements no \<open>$\<close>, so the call replaces the
  leftmost occurrence, continues after it, and so on.  An empty pattern matches the
  empty string at every position: the replacement is inserted before every character
  and at the end, as the global empty regular expression does.
\<close>

function replaceAll :: "string \<Rightarrow> string \<Rightarrow> string \<Rightarrow> string" where
  "replaceAll [] pat r = (if pat = [] then r else [])"
| "replaceAll (x # xs) pat r =
     (if pat = [] then r @ x # replaceAll xs pat r
      else if starts_with (x # xs) pat
      then r @ replaceAll (drop (length pat) (x # xs)) pat r
      else x # replaceAll xs pat r)"
  by pat_completeness auto
termination
  by (relation "measure (\<lambda>(s, _, _). length s)") auto

text \<open>\<open>getHTML(str)\<close>: \<open>&lt;\<close> first, then \<open>&gt;\<close>.\<close>

definition getHTML :: "string \<Rightarrow> string" where
  "getHTML str = replaceAll (replaceAll str ''&lt;'' ''<'') ''&gt;'' ''>''"

section \<open>Replacement lemmas\<close>

text \<open>
  The equations of \<open>replaceAll\<close> unfold under an \<open>if\<close> whose branches call it
  again, so they are replaced in the simplifier by one conditional equation per
  branch.
\<close>

declare replaceAll.simps [simp del]

lemma replaceAll_Nil [simp]: "replaceAll [] pat r = (if pat = [] then r else [])"
  by (simp add: replaceAll.simps)

lemma replaceAll_empty_pat [simp]: "replaceAll (x # xs) [] r = r @ x # replaceAll xs [] r"
  by (subst replaceAll.simps) simp

lemma replaceAll_match:
  "pat \<noteq> [] \<Longrightarrow> starts_with (x # xs) pat \<Longrightarrow>
   replaceAll (x # xs) pat r = r @ replaceAll (drop (length pat) (x # xs)) pat r"
  by (subst replaceAll.simps) simp

lemma replaceAll_no_match [simp]:
  "pat \<noteq> [] \<Longrightarrow> \<not> starts_with (x # xs) pat \<Longrightarrow>
   replaceAll (x # xs) pat r = x # replaceAll xs pat r"
  by (subst replaceAll.simps) simp

lemma replaceAll_find_prefix [simp]:
  "pat \<noteq> [] \<Longrightarrow> replaceAll (pat @ s) pat r = r @ replaceAll s pat r"
  by (cases pat) (auto simp: replaceAll_match)

text \<open>
  A prefix of the output that does not contain the first character of the
  replacement was already a prefix of the input: a replacement inside it would have
  put that character there.
\<close>

lemma replaceAll_starts_with:
  assumes "pat \<noteq> []" "r \<noteq> []" "hd r \<notin> set q"
    and "starts_with (replaceAll s pat r) q"
  shows "starts_with s q"
  using assms
proof (induction s pat r arbitrary: q rule: replaceAll.induct)
  case (1 pat r)
  then show ?case by (cases q) auto
next
  case (2 x xs pat r)
  show ?case
  proof (cases "starts_with (x # xs) pat")
    case True
    show ?thesis
    proof (cases q)
      case Nil
      then show ?thesis by simp
    next
      case (Cons c q')
      obtain r1 rs where r: "r = r1 # rs"
        using "2.prems"(2) by (cases r) auto
      have "starts_with (r @ replaceAll (drop (length pat) (x # xs)) pat r) q"
        using "2.prems"(4) unfolding replaceAll_match [OF "2.prems"(1) True] .
      with Cons r have "c = r1" by simp
      with Cons r "2.prems"(3) show ?thesis by simp
    qed
  next
    case False
    show ?thesis
    proof (cases q)
      case Nil
      then show ?thesis by simp
    next
      case (Cons c q')
      with "2.prems"(1,4) False have "c = x" "starts_with (replaceAll xs pat r) q'"
        by auto
      moreover have "hd r \<notin> set q'"
        using "2.prems"(3) Cons by auto
      ultimately have "starts_with xs q'"
        using "2.IH"(3) False "2.prems"(1,2) by blast
      with Cons \<open>c = x\<close> show ?thesis by simp
    qed
  qed
qed

lemma occurs_append_left:
  assumes "q \<noteq> []" "hd q \<notin> set u" "occurs q (u @ t)"
  shows "occurs q t"
  using assms
proof (induction u)
  case Nil
  then show ?case by simp
next
  case (Cons a u)
  then show ?case by (cases q) auto
qed

text \<open>After the replacement the pattern does not occur any more, provided the
  replacement shares no character with it.\<close>

lemma replaceAll_not_occurs:
  assumes "pat \<noteq> []" "r \<noteq> []" "set r \<inter> set pat = {}"
  shows "\<not> occurs pat (replaceAll s pat r)"
  using assms
proof (induction s pat r rule: replaceAll.induct)
  case (1 pat r)
  then show ?case by simp
next
  case (2 x xs pat r)
  obtain p1 ps where p: "pat = p1 # ps"
    using "2.prems"(1) by (cases pat) auto
  obtain r1 rs where r: "r = r1 # rs"
    using "2.prems"(2) by (cases r) auto
  have hd_r: "hd r \<notin> set ps" and hd_f: "hd pat \<notin> set r"
    using "2.prems"(3) p r by auto
  show ?case
  proof (cases "starts_with (x # xs) pat")
    case True
    let ?rest = "replaceAll (drop (length pat) (x # xs)) pat r"
    have "\<not> occurs pat ?rest"
      using "2.IH"(2) True "2.prems" by blast
    then have "\<not> occurs pat (r @ ?rest)"
      using occurs_append_left "2.prems"(1) hd_f by blast
    then show ?thesis
      unfolding replaceAll_match [OF "2.prems"(1) True] .
  next
    case False
    have ih: "\<not> occurs pat (replaceAll xs pat r)"
      using "2.IH"(3) False "2.prems" by blast
    have "\<not> starts_with (x # replaceAll xs pat r) pat"
    proof
      assume "starts_with (x # replaceAll xs pat r) pat"
      with p have "p1 = x" "starts_with (replaceAll xs pat r) ps"
        by auto
      then have "starts_with xs ps"
        using replaceAll_starts_with hd_r "2.prems"(1,2) by blast
      with p \<open>p1 = x\<close> False show False by simp
    qed
    with ih show ?thesis
      unfolding replaceAll_no_match [OF "2.prems"(1) False] by simp
  qed
qed

text \<open>A replacement whose text shares no character with \<open>q\<close> creates no
  occurrence of \<open>q\<close>.\<close>

lemma replaceAll_keeps_absent:
  assumes "\<not> occurs q s" "q \<noteq> []" "pat \<noteq> []" "r \<noteq> []" "set r \<inter> set q = {}"
  shows "\<not> occurs q (replaceAll s pat r)"
  using assms
proof (induction s pat r rule: replaceAll.induct)
  case (1 pat r)
  then show ?case by simp
next
  case (2 x xs pat r)
  obtain q1 qs where q: "q = q1 # qs"
    using "2.prems"(2) by (cases q) auto
  have hd_q: "hd q \<notin> set r" and hd_r: "hd r \<notin> set qs"
    using "2.prems"(4,5) q by (cases r; auto)+
  show ?case
  proof (cases "starts_with (x # xs) pat")
    case True
    let ?rest = "replaceAll (drop (length pat) (x # xs)) pat r"
    have "\<not> occurs q (drop (length pat) (x # xs))"
      using "2.prems"(1) occurs_drop by blast
    then have "\<not> occurs q ?rest"
      using "2.IH"(2) True "2.prems"(2-5) by blast
    then have "\<not> occurs q (r @ ?rest)"
      using occurs_append_left [OF "2.prems"(2) hd_q] by blast
    then show ?thesis
      unfolding replaceAll_match [OF "2.prems"(3) True] .
  next
    case False
    have "\<not> occurs q xs"
      using "2.prems"(1) by simp
    then have ih: "\<not> occurs q (replaceAll xs pat r)"
      using "2.IH"(3) False "2.prems"(2-5) by blast
    have "\<not> starts_with (x # replaceAll xs pat r) q"
    proof
      assume "starts_with (x # replaceAll xs pat r) q"
      with q have "q1 = x" and sw: "starts_with (replaceAll xs pat r) qs"
        by auto
      have "starts_with xs qs"
        by (rule replaceAll_starts_with [OF "2.prems"(3,4) hd_r sw])
      with q \<open>q1 = x\<close> have "starts_with (x # xs) q"
        by simp
      with "2.prems"(1) show False by simp
    qed
    with ih show ?thesis
      unfolding replaceAll_no_match [OF "2.prems"(3) False] by simp
  qed
qed

text \<open>
  Escaping a character \<open>c\<close> as an entity \<open>p\<close> and replacing \<open>p\<close> back
  gives the original string, when \<open>p\<close> did not occur in it already and the first
  character of \<open>p\<close> does not recur inside \<open>p\<close> (so an occurrence of \<open>p\<close>
  cannot start in the middle of an inserted one).
\<close>

lemma replaceAll_absent:
  "pat \<noteq> [] \<Longrightarrow> \<not> occurs pat s \<Longrightarrow> replaceAll s pat r = s"
  by (induction s) auto

lemma replaceAll_escape_roundtrip:
  assumes "p \<noteq> []" "hd p \<notin> set (tl p)" "\<not> occurs p s"
  shows "replaceAll (replaceAll s [c] p) p [c] = s"
  using assms(3)
proof (induction s)
  case Nil
  then show ?case using assms(1) by simp
next
  case (Cons x xs)
  then have ih: "replaceAll (replaceAll xs [c] p) p [c] = xs"
    by simp
  show ?case
  proof (cases "x = c")
    case True
    then have "replaceAll (x # xs) [c] p = p @ replaceAll xs [c] p"
      by (simp add: replaceAll_match)
    with ih True assms(1) show ?thesis by simp
  next
    case False
    then have esc: "replaceAll (x # xs) [c] p = x # replaceAll xs [c] p"
      by simp
    obtain p1 ps where p: "p = p1 # ps"
      using assms(1) by (cases p) auto
    have "\<not> starts_with (x # replaceAll xs [c] p) p"
    proof
      assume "starts_with (x # replaceAll xs [c] p) p"
      with p have "p1 = x" "starts_with (replaceAll xs [c] p) ps"
        by auto
      moreover have "hd p \<notin> set ps"
        using assms(2) p by simp
      ultimately have "starts_with (x # xs) p"
        using replaceAll_starts_with [of "[c]" p ps xs] assms(1) p by auto
      with Cons.prems show False by simp
    qed
    with esc ih assms(1) show ?thesis by simp
  qed
qed

section \<open>Properties of the normaliser\<close>

text \<open>
  C11. Quote-entity round trip: the replacement of \<open>&quot;\<close> by a double quote that
  \<open>parseTable\<close> applies to a theme name undoes the HTML escaping of the double
  quotes of that name, for every name that does not itself contain the text
  \<open>&quot;\<close>.
\<close>

theorem unquote_roundtrip:
  assumes "\<not> occurs ''&quot;'' s"
  shows "replaceAll (replaceAll s [quot] ''&quot;'') ''&quot;'' [quot] = s"
  using replaceAll_escape_roundtrip [of "''&quot;''" s quot] assms by simp

theorem unquote_roundtrip_witness:
  "\<not> occurs ''&quot;'' (''OP1 '' @ [quot] @ ''sister's noise'' @ [quot]) \<and>
   replaceAll (''OP1 &quot;sister's noise&quot;'') ''&quot;'' [quot] =
     ''OP1 '' @ [quot] @ ''sister's noise'' @ [quot]"
proof -
  have h: "\<not> occurs ''&quot;'' (''OP1 '' @ [quot] @ ''sister's noise'' @ [quot])"
    by simp
  have e: "replaceAll (''OP1 '' @ [quot] @ ''sister's noise'' @ [quot]) [quot] ''&quot;'' =
           ''OP1 &quot;sister's noise&quot;''"
    by (simp add: replaceAll_match)
  show ?thesis
    using h unquote_roundtrip [OF h] unfolding e by simp
qed

text \<open>
  C10. \<open>getHTML\<close> leaves no escaped angle bracket: its result contains neither
  \<open>&lt;\<close> nor \<open>&gt;\<close>, whatever the input.
\<close>

theorem getHTML_unescaped:
  "\<not> occurs ''&lt;'' (getHTML s) \<and> \<not> occurs ''&gt;'' (getHTML s)"
proof
  have "\<not> occurs ''&lt;'' (replaceAll s ''&lt;'' ''<'')"
    by (rule replaceAll_not_occurs) auto
  then show "\<not> occurs ''&lt;'' (getHTML s)"
    unfolding getHTML_def by (rule replaceAll_keeps_absent) auto
  show "\<not> occurs ''&gt;'' (getHTML s)"
    unfolding getHTML_def by (rule replaceAll_not_occurs) auto
qed

text \<open>
  C21. \<open>getHTML\<close> unescapes nothing but the angle brackets: a string without
  \<open>&lt;\<close> and \<open>&gt;\<close> comes back unchanged, so the once-escaped entities of the
  page's text (\<open>&amp;amp;\<close>, \<open>&amp;quot;\<close>, \<open>&amp;#39;\<close>) reach the markup
  parser still escaped, and a title or cell text keeps one level of entities.
\<close>

theorem getHTML_other_entities:
  assumes "\<not> occurs ''&lt;'' s" "\<not> occurs ''&gt;'' s"
  shows "getHTML s = s"
  using assms by (simp add: getHTML_def replaceAll_absent)

theorem getHTML_other_entities_witness:
  "\<not> occurs ''&lt;'' ''Tom &amp;amp; Jerry &amp;quot;OP&amp;quot;'' \<and>
   \<not> occurs ''&gt;'' ''Tom &amp;amp; Jerry &amp;quot;OP&amp;quot;'' \<and>
   getHTML ''Tom &amp;amp; Jerry &amp;quot;OP&amp;quot;'' = ''Tom &amp;amp; Jerry &amp;quot;OP&amp;quot;''"
proof -
  have a: "\<not> occurs ''&lt;'' ''Tom &amp;amp; Jerry &amp;quot;OP&amp;quot;''"
    and b: "\<not> occurs ''&gt;'' ''Tom &amp;amp; Jerry &amp;quot;OP&amp;quot;''"
    by simp_all
  show ?thesis
    using a b getHTML_other_entities [OF a b] by simp
qed


text \<open>
  C27. Equivalence with the reference definition: for a non-empty pattern, the
  global replacement \<open>str.replace(new RegExp(find, 'g'), replace)\<close> of a pattern
  without regular-expression operators is \<open>str.split(find).join(replace)\<close>.
\<close>

theorem replaceAll_split_join:
  assumes "pat \<noteq> []"
  shows "replaceAll s pat r = js_join r (split_str pat s)"
  using assms
proof (induction pat s rule: split_str.induct)
  case (1 pat)
  then show ?case by simp
next
  case (2 pat x xs)
  show ?case
  proof (cases "starts_with (x # xs) pat")
    case True
    with "2.prems" "2.IH"(1) show ?thesis
      by (simp add: replaceAll_match js_join_Nil_Cons)
  next
    case False
    with "2.prems" "2.IH"(2) show ?thesis
      by (simp add: Let_def js_join_Cons_hd)
  qed
qed

theorem replaceAll_split_join_witness:
  "''&lt;'' \<noteq> [] \<and> replaceAll ''a&lt;b&lt;'' ''&lt;'' ''<'' = js_join ''<'' (split_str ''&lt;'' ''a&lt;b&lt;'') \<and>
   split_str ''&lt;'' ''a&lt;b&lt;'' = [''a'', ''b'', '''']"
proof -
  have s: "split_str ''&lt;'' ''a&lt;b&lt;'' = [''a'', ''b'', '''']"
    by simp
  show ?thesis
    using replaceAll_split_join [of "''&lt;''" "''a&lt;b&lt;''" "''<''"] s by simp
qed

end
