(* ===== verification/Dom.thy ===== *)
theory Dom
  imports Prelude
begin

text \<open>
  The markup tree the scraper walks and the part of the cheerio API it uses.  cheerio
  is a library the program calls, not code of the repository: this theory models the
  documented behaviour of the calls that appear in \<open>src/main.js\<close>.  A parsed page
  is a forest of element and text nodes.  A cheerio selection is a list of nodes.  A
  selection holding one element also has to move to that element's following
  siblings (\<open>.next()\<close>), so such a selection is a \<^emph>\<open>cursor\<close>: the element followed
  by its later siblings.  The empty list is the empty selection.
\<close>

section \<open>Nodes and selections\<close>

text \<open>An element: tag name (lower case, as the HTML parser produces it), attributes
  in document order, children.\<close>

datatype node = Elem string "(string \<times> string) list" "node list" | Text string

type_synonym selection = "node list"
type_synonym cursor = "node list"

fun is_elem :: "node \<Rightarrow> bool" where
  "is_elem (Elem n a cs) = True"
| "is_elem (Text s) = False"

fun elem_named :: "string \<Rightarrow> node \<Rightarrow> bool" where
  "elem_named t (Elem n a cs) = (n = t)"
| "elem_named t (Text s) = False"

fun kids :: "node \<Rightarrow> node list" where
  "kids (Elem n a cs) = cs"
| "kids (Text s) = []"

text \<open>\<open>.text()\<close>: the text of all descendants, in document order.\<close>

fun text_of :: "node \<Rightarrow> string" where
  "text_of (Text s) = s"
| "text_of (Elem n a cs) = concat (map text_of cs)"

definition sel_text :: "selection \<Rightarrow> string" where
  "sel_text sel = concat (map text_of sel)"

text \<open>\<open>.children()\<close> and \<open>.children(t)\<close>: the element children of every node of
  the selection.\<close>

definition children :: "selection \<Rightarrow> selection" where
  "children sel = concat (map (\<lambda>x. filter is_elem (kids x)) sel)"

definition children_named :: "string \<Rightarrow> selection \<Rightarrow> selection" where
  "children_named t sel = filter (elem_named t) (children sel)"

text \<open>\<open>.first()\<close> and \<open>.eq(i)\<close>.\<close>

definition sel_first :: "selection \<Rightarrow> selection" where
  "sel_first sel = take 1 sel"

definition sel_eq :: "nat \<Rightarrow> selection \<Rightarrow> selection" where
  "sel_eq i sel = (if i < length sel then [sel ! i] else [])"

text \<open>\<open>.attr(k)\<close>: the attribute of the first node, \<open>undefined\<close> for an empty
  selection or a missing attribute (the parser keeps the first of duplicates).\<close>

fun attr :: "string \<Rightarrow> selection \<Rightarrow> string option" where
  "attr k (Elem n a cs # rest) = map_of a k"
| "attr k _ = None"

text \<open>\<open>.prop('tagName')\<close>: the upper-cased tag name of the first node.\<close>

fun tag_name :: "cursor \<Rightarrow> string option" where
  "tag_name (Elem n a cs # rest) = Some (js_upper n)"
| "tag_name _ = None"

text \<open>\<open>.next()\<close>: the next element sibling; text nodes are skipped.\<close>

fun next_elem :: "node list \<Rightarrow> cursor" where
  "next_elem [] = []"
| "next_elem (Text s # rest) = next_elem rest"
| "next_elem (Elem n a cs # rest) = Elem n a cs # rest"

fun next_sib :: "cursor \<Rightarrow> cursor" where
  "next_sib [] = []"
| "next_sib (x # rest) = next_elem rest"

text \<open>
  \<open>$(sel)\<close> for a tag selector \<open>t\<close> and for a descendant selector \<open>anc t\<close>: the
  cursors of the elements named \<open>t\<close> (inside an element named \<open>anc\<close>), in document
  order, each once.  \<open>inside\<close> records whether an ancestor named \<open>anc\<close> was passed.
\<close>

fun select_in :: "bool \<Rightarrow> string \<Rightarrow> string \<Rightarrow> node list \<Rightarrow> cursor list" where
  "select_in inside anc t [] = []"
| "select_in inside anc t (Text s # rest) = select_in inside anc t rest"
| "select_in inside anc t (Elem n a cs # rest) =
     (if inside \<and> n = t then [Elem n a cs # rest] else []) @
     select_in (inside \<or> n = anc) anc t cs @ select_in inside anc t rest"

definition select :: "string \<Rightarrow> node list \<Rightarrow> cursor list" where
  "select t doc = select_in True [] t doc"

definition select_desc :: "string \<Rightarrow> string \<Rightarrow> node list \<Rightarrow> cursor list" where
  "select_desc anc t doc = select_in False anc t doc"

section \<open>Facts on navigation\<close>

lemma next_elem_length: "length (next_elem xs) \<le> length xs"
  by (induction xs rule: next_elem.induct) auto

lemma next_sib_length: "c \<noteq> [] \<Longrightarrow> length (next_sib c) < length c"
  by (cases c) (auto simp: le_imp_less_Suc next_elem_length)

lemma elem_in_next_elem:
  "is_elem y \<Longrightarrow> y \<in> set (next_elem xs) \<longleftrightarrow> y \<in> set xs"
  by (induction xs rule: next_elem.induct) auto

lemma next_elem_append_text [simp]:
  "next_elem (map Text ss @ rest) = next_elem rest"
  by (induction ss) auto

lemma select_in_cursor_head:
  "c \<in> set (select_in inside anc t doc) \<Longrightarrow> \<exists>a cs rest. c = Elem t a cs # rest"
  by (induction inside anc t doc rule: select_in.induct) (auto split: if_splits)

lemmas sel_simps [simp] = sel_text_def children_def children_named_def sel_first_def sel_eq_def

end
