(* ===== verification/Table.thy ===== *)
theory Table
  imports Normalizer Dom
begin

text \<open>
  The table extractor of \<open>src/main.js\<close>: the \<open>Theme\<close> record (JSDoc typedef, lines
  5--15), the body of the row loop of \<open>parseTable\<close> (lines 129--145) as
  \<open>parse_row\<close>, the rows of a table (lines 127--147) as \<open>table_rows\<close>, and
  \<open>parseTable\<close> itself (lines 122--148), whose probe for a table along the next
  siblings is unbounded and is therefore a \<open>partial_function (option)\<close>: \<open>None\<close> is
  the recursion that never stops (in the running program the call stack overflows
  with a \<open>RangeError\<close>).  \<open>find_table\<close> is the bounded search that characterises it.
\<close>

section \<open>Themes\<close>

text \<open>\<open>type\<close>: \<open>'opening' | 'ending'\<close>.  The field \<open>notes\<close> is \<open>notes'\<close>
  here, \<open>notes\<close> being a keyword of Isabelle.\<close>

datatype song_type = Opening | Ending

record theme =
  name :: string
  link :: "string option"
  type :: song_type
  episodes :: string
  notes' :: string

text \<open>
  One \<open>tr\<close> of the table (the \<open>each\<close> callback): \<open>cheerio.load(this)\<close> and
  \<open>$('td')\<close> give the \<open>td\<close> elements of the row in document order; the name is the
  text of the first with \<open>&quot;\<close> replaced, the link the \<open>href\<close> of the first
  element child of the second, the episodes and notes the texts of the third and
  fourth (\<open>''\<close> when the cell is missing).
\<close>

definition parse_row :: "node \<Rightarrow> theme" where
  "parse_row tr =
     (let td = map hd (select ''td'' [tr]);
          nm = replaceAll (sel_text (sel_first td)) ''&quot;'' [quot];
          lk = attr ''href'' (sel_first (children (sel_eq 1 td)));
          eps = sel_text (sel_eq 2 td);
          nts = sel_text (sel_eq 3 td)
      in \<lparr>name = nm, link = lk, type = (if starts_with nm ''OP'' then Opening else Ending),
          episodes = eps, notes' = nts\<rparr>)"

text \<open>\<open>table.children('tbody').children('tr')\<close>, one theme per row.\<close>

definition table_rows :: "cursor \<Rightarrow> theme list" where
  "table_rows table =
     map parse_row (children_named ''tr'' (children_named ''tbody'' (sel_first table)))"

text \<open>
  \<open>parseTable(table)\<close>: while the selection is not a \<open>TABLE\<close>, recurse on its next
  sibling.  The next sibling of the empty selection is empty again, so without a
  table ahead the recursion never ends.
\<close>

partial_function (option) parseTable :: "cursor \<Rightarrow> theme list option" where
  "parseTable table =
     (if tag_name table \<noteq> Some ''TABLE'' then parseTable (next_sib table)
      else Some (table_rows table))"

text \<open>The bounded search: the first table among the cursor's elements, if any.\<close>

function find_table :: "cursor \<Rightarrow> cursor option" where
  "find_table [] = None"
| "find_table (x # rest) =
     (if tag_name (x # rest) = Some ''TABLE'' then Some (x # rest)
      else find_table (next_sib (x # rest)))"
  by pat_completeness auto
termination
  by (relation "measure length") (auto simp: le_imp_less_Suc next_elem_length)

text \<open>A theme's \<open>type\<close> is the one its name determines.\<close>

definition wf_theme :: "theme \<Rightarrow> bool" where
  "wf_theme t \<longleftrightarrow> (type t = Opening \<longleftrightarrow> starts_with (name t) ''OP'')"

section \<open>The wiki's table markup\<close>

text \<open>
  The shape of a theme table on the wiki (spec, 4.2 and 8), used to state what
  \<open>parseTable\<close> recovers from it: a header row in \<open>thead\<close>, then one \<open>tr\<close> per
  theme in \<open>tbody\<close>, the cells name, link (an anchor), episodes, notes, the double
  quotes of the name escaped as \<open>&quot;\<close>, and the newline text nodes the parser
  leaves between elements.  An entry is the theme's name, link, episodes and notes;
  \<open>theme_of\<close> is the record the spec's data model (section 3) gives it.
\<close>

type_synonym entry = "string \<times> string \<times> string \<times> string"

abbreviation nl :: node where
  "nl \<equiv> Text [CHR 0x0A]"

fun wiki_row :: "entry \<Rightarrow> node" where
  "wiki_row (nm, href, eps, nts) =
     Elem ''tr'' []
       [nl, Elem ''td'' [] [Text (replaceAll nm [quot] ''&quot;'')],
        nl, Elem ''td'' [] [Elem ''a'' [(''href'', href)] [Text ''Webm'']],
        nl, Elem ''td'' [] [Text eps], nl, Elem ''td'' [] [Text nts], nl]"

definition wiki_table :: "entry list \<Rightarrow> node" where
  "wiki_table es =
     Elem ''table'' []
       [Elem ''thead'' [] [Elem ''tr'' [] [Elem ''th'' [] [Text ''Theme'']]],
        Elem ''tbody'' [] (concat (map (\<lambda>e. [nl, wiki_row e]) es))]"

fun theme_of :: "entry \<Rightarrow> theme" where
  "theme_of (nm, href, eps, nts) =
     \<lparr>name = nm, link = Some href, type = (if starts_with nm ''OP'' then Opening else Ending),
      episodes = eps, notes' = nts\<rparr>"

section \<open>The probe and the bounded search\<close>

lemma parseTable_Some_find:
  assumes "parseTable c = Some r"
  shows "\<exists>t. find_table c = Some t \<and> r = table_rows t"
proof (rule parseTable.raw_induct [where P = "\<lambda>c r. \<exists>t. find_table c = Some t \<and> r = table_rows t", OF _ assms])
  fix f :: "cursor \<Rightarrow> theme list option" and c r
  assume IH: "\<And>c r. f c = Some r \<Longrightarrow> \<exists>t. find_table c = Some t \<and> r = table_rows t"
    and eq: "(if tag_name c \<noteq> Some ''TABLE'' then f (next_sib c) else Some (table_rows c)) = Some r"
  show "\<exists>t. find_table c = Some t \<and> r = table_rows t"
  proof (cases "tag_name c = Some ''TABLE''")
    case True
    then obtain x rest where "c = x # rest"
      by (cases c) auto
    with True eq show ?thesis by simp
  next
    case False
    with eq have "f (next_sib c) = Some r" by simp
    then obtain t where t: "find_table (next_sib c) = Some t" "r = table_rows t"
      using IH by blast
    have "c \<noteq> []"
      using t(1) by (cases c) auto
    then obtain x rest where "c = x # rest"
      by (cases c) auto
    with False t show ?thesis by simp
  qed
qed

lemma find_table_parseTable:
  "find_table c = Some t \<Longrightarrow> parseTable c = Some (table_rows t)"
proof (induction c rule: find_table.induct)
  case 1
  then show ?case by simp
next
  case (2 x rest)
  show ?case
  proof (cases "tag_name (x # rest) = Some ''TABLE''")
    case True
    with "2.prems" have "t = x # rest" by simp
    with True show ?thesis
      by (simp add: parseTable.simps [of "x # rest"])
  next
    case False
    with "2.prems" "2.IH" show ?thesis
      by (simp add: parseTable.simps [of "x # rest"])
  qed
qed

lemma find_table_elems:
  "find_table c \<noteq> None \<longleftrightarrow> (\<exists>n a k. Elem n a k \<in> set c \<and> js_upper n = ''TABLE'')"
proof (induction c rule: find_table.induct)
  case 1
  then show ?case by simp
next
  case (2 x rest)
  have tail: "(\<exists>n a k. Elem n a k \<in> set (next_elem rest) \<and> js_upper n = ''TABLE'') \<longleftrightarrow>
              (\<exists>n a k. Elem n a k \<in> set rest \<and> js_upper n = ''TABLE'')"
    using elem_in_next_elem [where y = "Elem _ _ _"] by auto
  show ?case
  proof (cases x)
    case (Elem n a k)
    with "2.IH" tail show ?thesis
      by (cases "js_upper n = ''TABLE''") force+
  next
    case (Text s)
    with "2.IH" tail show ?thesis by auto
  qed
qed


text \<open>
  The probe returns exactly when the bounded search finds a table, and then with
  that table's rows.
\<close>

lemma parseTable_eq: "parseTable c = map_option table_rows (find_table c)"
proof (cases "find_table c")
  case None
  show ?thesis
  proof (cases "parseTable c")
    case (Some r)
    with None show ?thesis
      using parseTable_Some_find by fastforce
  qed (simp add: None)
next
  case (Some t)
  then show ?thesis by (simp add: find_table_parseTable)
qed

lemma js_upper_table [simp]: "js_upper ''table'' = ''TABLE''"
  by (simp add: js_upper_def upper_char_def)

lemma tbody_rows [simp]:
  "filter (\<lambda>x. is_elem x \<and> elem_named ''tr'' x) (concat (map (\<lambda>e. [nl, wiki_row e]) es)) =
   map wiki_row es"
  by (induction es) auto

lemma parse_wiki_row:
  assumes "\<not> occurs ''&quot;'' (fst e)"
  shows "parse_row (wiki_row e) = theme_of e"
proof -
  obtain nm href eps nts where e: "e = (nm, href, eps, nts)"
    by (cases e) auto
  have "replaceAll (replaceAll nm [quot] ''&quot;'') ''&quot;'' [quot] = nm"
    using replaceAll_escape_roundtrip [of "''&quot;''" nm quot] assms e by simp
  then show ?thesis
    by (simp add: e parse_row_def select_def)
qed

lemma wiki_table_rows:
  assumes "\<forall>e \<in> set es. \<not> occurs ''&quot;'' (fst e)"
  shows "table_rows [wiki_table es] = map theme_of es"
proof -
  have "map parse_row (map wiki_row es) = map theme_of es"
    using assms parse_wiki_row by simp
  then show ?thesis
    by (simp add: wiki_table_def table_rows_def)
qed

section \<open>Properties of the table extractor\<close>

text \<open>
  C5. Termination of the table probe: \<open>parseTable\<close> returns exactly when one of the
  elements of its cursor, the candidate or a later sibling, is a \<open>table\<close>; otherwise
  it recurses for ever.
\<close>

theorem parseTable_terminates:
  "parseTable c \<noteq> None \<longleftrightarrow> (\<exists>n a k. Elem n a k \<in> set c \<and> js_upper n = ''TABLE'')"
  by (subst parseTable_eq) (simp only: option.map_disc_iff find_table_elems)

text \<open>
  C3. Table round trip: a theme table in the wiki's markup, followed by anything,
  is parsed back into its entries in row order, each name with its double quotes
  restored and its type derived from the name, provided no name contains the text
  \<open>&quot;\<close> itself.
\<close>

theorem table_roundtrip:
  assumes "\<forall>e \<in> set es. \<not> occurs ''&quot;'' (fst e)"
  shows "parseTable (wiki_table es # rest) = Some (map theme_of es)"
  using wiki_table_rows [OF assms] by (simp add: parseTable_eq wiki_table_def table_rows_def)

theorem table_roundtrip_witness:
  "\<not> occurs ''&quot;'' (''OP1 '' @ [quot] @ ''x'' @ [quot]) \<and>
   \<not> occurs ''&quot;'' (''ED1 '' @ [quot] @ ''y'' @ [quot]) \<and>
   map type (the (parseTable [wiki_table
      [(''OP1 '' @ [quot] @ ''x'' @ [quot], ''u1'', ''1-12'', ''''),
       (''ED1 '' @ [quot] @ ''y'' @ [quot], ''u2'', '''', ''Spoiler'')]])) = [Opening, Ending]"
proof -
  let ?es = "[(''OP1 '' @ [quot] @ ''x'' @ [quot], ''u1'', ''1-12'', ''''),
              (''ED1 '' @ [quot] @ ''y'' @ [quot], ''u2'', '''', ''Spoiler'')]"
  have h: "\<forall>e \<in> set ?es. \<not> occurs ''&quot;'' (fst e)"
    by simp
  show ?thesis
    using h table_roundtrip [OF h, of "[]"] by simp
qed

end
