(* ===== verification/Anime.thy ===== *)
theory Anime
  imports Table
begin

text \<open>
  The anime block extractor of \<open>src/main.js\<close>: the \<open>Anime\<close> record (JSDoc typedef,
  lines 17--23) and \<open>parseAnime\<close> (lines 102--120), which reads the title and the
  MyAnimeList id from the anchor of an \<open>h3\<close> heading and takes the themes from the
  table after it, skipping one paragraph of alternative titles.  Its two exceptions
  are values: \<open>TypeError\<close> when the heading has no anchor with an \<open>href\<close> (the
  \<open>.split\<close> of \<open>undefined\<close>), \<open>RangeError\<close> when the table probe of a paragraph
  branch never finds a table.
\<close>

section \<open>Anime records\<close>

text \<open>
  \<open>id\<close>, \<open>title\<close>, \<open>year\<close>, \<open>themes\<close>; a field the code leaves \<open>undefined\<close> is
  \<open>None\<close>.  \<open>id\<close> and \<open>year\<close> are \<open>anime_id\<close> and \<open>anime_year\<close> here, the bare
  names being taken by the identity function and by the method \<open>year\<close>.
\<close>

record anime =
  anime_id :: "string option"
  title :: string
  anime_year :: "string option"
  themes :: "theme list option"

text \<open>
  \<open>parseAnime(dat)\<close>: the anchor children of the heading give the title (their
  text) and the id (segment 4 of the first anchor's \<open>href\<close> split at \<open>/\<close>).  A
  paragraph after the heading sends the probe to the sibling after it; a table is
  parsed directly; after anything else the record has no \<open>themes\<close>.
\<close>

definition parseAnime :: "cursor \<Rightarrow> anime js_result" where
  "parseAnime dat =
     (let el = children_named ''a'' (sel_first dat);
          ttl = sel_text el
      in case attr ''href'' el of
           None \<Rightarrow> Inl TypeError
         | Some href \<Rightarrow>
             (let malId = js_index (js_split CHR ''/'' href) 4;
                  nxt = next_sib dat;
                  theme = \<lparr>anime_id = malId, title = ttl, anime_year = None, themes = None\<rparr>
              in if tag_name nxt = Some ''P'' then
                   (case parseTable (next_sib nxt) of
                      None \<Rightarrow> Inl RangeError
                    | Some ts \<Rightarrow> Inr (theme\<lparr>themes := Some ts\<rparr>))
                 else if tag_name nxt = Some ''TABLE'' then
                   (case parseTable nxt of
                      None \<Rightarrow> Inl RangeError
                    | Some ts \<Rightarrow> Inr (theme\<lparr>themes := Some ts\<rparr>))
                 else Inr theme))"

text \<open>The anchor \<open>href\<close> of a heading, as \<open>parseAnime\<close> reads it.\<close>

definition heading_href :: "node \<Rightarrow> string option" where
  "heading_href h = attr ''href'' (children_named ''a'' [h])"

text \<open>Whether a cursor holds a \<open>table\<close> element.\<close>

definition has_table :: "cursor \<Rightarrow> bool" where
  "has_table c \<longleftrightarrow> (\<exists>n a k. Elem n a k \<in> set c \<and> js_upper n = ''TABLE'')"

text \<open>Two headings of a year page, used by the witnesses below.\<close>

definition mal_heading :: node where
  "mal_heading = Elem ''h3'' []
     [Elem ''a'' [(''href'', ''https://myanimelist.net/anime/9253/Steins_Gate'')] [Text ''Steins;Gate'']]"

definition theme_table_kids :: "node list" where
  "theme_table_kids =
     [Elem ''thead'' [] [Elem ''tr'' [] [Elem ''th'' [] [Text ''Theme'']]],
      Elem ''tbody'' [] [nl, wiki_row (''OP1'', ''u'', '''', '''')]]"

definition next_heading_kids :: "node list" where
  "next_heading_kids =
     [Elem ''a'' [(''href'', ''https://myanimelist.net/anime/5/Cowboy_Bebop'')] [Text ''Cowboy Bebop'']]"

section \<open>Unfolding \<open>parseAnime\<close>\<close>

lemma js_upper_p [simp]: "js_upper ''p'' = ''P''"
  by (simp add: js_upper_def upper_char_def)

lemma parseAnime_no_href:
  "heading_href h = None \<Longrightarrow> parseAnime (h # rest) = Inl TypeError"
  by (simp add: parseAnime_def heading_href_def)

lemma parseAnime_href:
  assumes "heading_href h = Some href"
  shows "parseAnime (h # rest) =
    (let theme = \<lparr>anime_id = js_index (js_split CHR ''/'' href) 4,
                  title = sel_text (children_named ''a'' [h]), anime_year = None, themes = None\<rparr>
     in if tag_name (next_elem rest) = Some ''P'' then
          (case parseTable (next_sib (next_elem rest)) of
             None \<Rightarrow> Inl RangeError
           | Some ts \<Rightarrow> Inr (theme\<lparr>themes := Some ts\<rparr>))
        else if tag_name (next_elem rest) = Some ''TABLE'' then
          (case parseTable (next_elem rest) of
             None \<Rightarrow> Inl RangeError
           | Some ts \<Rightarrow> Inr (theme\<lparr>themes := Some ts\<rparr>))
        else Inr theme)"
  using assms by (simp add: parseAnime_def heading_href_def Let_def)

lemma parseTable_table_head [simp]:
  "parseTable (Elem ''table'' a k # rest) = Some (table_rows (Elem ''table'' a k # rest))"
  by (simp add: parseTable_eq)

lemma parseTable_text_head [simp]:
  "parseTable (Text s # rest) = parseTable (next_elem rest)"
  by (simp add: parseTable_eq)

lemma js_upper_h3 [simp]: "js_upper ''h3'' = ''H3''"
  by (simp add: js_upper_def upper_char_def)

lemma table_rows_head: "table_rows (x # rest) = table_rows [x]"
  by (simp add: table_rows_def)

lemma parseTable_None_iff: "parseTable c = None \<longleftrightarrow> \<not> has_table c"
  using find_table_elems [of c] by (auto simp: parseTable_eq has_table_def)

lemma tag_name_has_table: "tag_name c = Some ''TABLE'' \<Longrightarrow> has_table c"
  by (cases c rule: tag_name.cases) (auto simp: has_table_def)

lemma mal_url_id:
  "CHR ''/'' \<notin> set d \<Longrightarrow>
   js_index (js_split CHR ''/'' (''https://myanimelist.net/anime/'' @ d @ ''/'' @ slug)) 4 = Some d"
  by (simp add: js_split_append_sep js_index_def)

text \<open>A heading whose next element is a table: the record of the table branch.\<close>

lemma parseAnime_table_next:
  assumes "heading_href h = Some href" "next_elem rest = Elem ''table'' ta tk # rest'"
  shows "parseAnime (h # rest) =
    Inr \<lparr>anime_id = js_index (js_split CHR ''/'' href) 4, title = sel_text (children_named ''a'' [h]),
         anime_year = None, themes = Some (table_rows [Elem ''table'' ta tk])\<rparr>"
  using assms by (simp add: parseAnime_href Let_def table_rows_head [of _ rest'])

text \<open>A paragraph after the heading and no table after it: the probe diverges.\<close>

lemma parseAnime_range_error:
  assumes "heading_href h \<noteq> None" "tag_name (next_elem rest) = Some ''P''"
    "\<not> has_table (next_sib (next_elem rest))"
  shows "parseAnime (h # rest) = Inl RangeError"
  using assms parseTable_None_iff [of "next_sib (next_elem rest)"]
  by (auto simp: parseAnime_href Let_def)

section \<open>Properties of the anime block extractor\<close>

text \<open>
  C12. Indirection: a heading followed by a paragraph of alternative titles and then a
  table yields the same record as the heading followed directly by that table,
  whatever whitespace text lies between them and whatever follows the table.
\<close>

theorem parseAnime_indirection:
  "parseAnime (h # map Text s1 @ Elem ''p'' pa pk # map Text s2 @ Elem ''table'' ta tk # rest) =
   parseAnime (h # map Text s3 @ Elem ''table'' ta tk # rest')"
proof (cases "heading_href h")
  case None
  then show ?thesis by (simp add: parseAnime_no_href)
next
  case (Some href)
  then show ?thesis
    by (simp add: parseAnime_href Let_def table_rows_head [of _ rest]
        table_rows_head [of _ rest'])
qed

text \<open>
  C4. Functional behaviour on the table branch, and the id: for a heading whose
  anchor links to \<open>https://myanimelist.net/anime/ID/...\<close> and which is followed by
  a table, the record has that \<open>ID\<close>, the anchor text as title, no year yet, and the
  rows of the table as themes.
\<close>

theorem parseAnime_table_branch:
  assumes "heading_href h = Some (''https://myanimelist.net/anime/'' @ d @ ''/'' @ slug)"
    and "CHR ''/'' \<notin> set d"
  shows "parseAnime (h # Elem ''table'' ta tk # rest) =
    Inr \<lparr>anime_id = Some d, title = sel_text (children_named ''a'' [h]), anime_year = None,
         themes = Some (table_rows [Elem ''table'' ta tk])\<rparr>"
  using parseAnime_table_next [OF assms(1), of "Elem ''table'' ta tk # rest" ta tk rest]
  unfolding mal_url_id [OF assms(2)] by simp

text \<open>
  C13. Errors of \<open>parseAnime\<close>: it raises exactly a \<open>TypeError\<close> when the heading
  has no anchor with an \<open>href\<close>, and exactly a \<open>RangeError\<close> when a paragraph
  follows the heading and no table follows the paragraph; it raises nothing else.
\<close>

theorem parseAnime_error:
  "parseAnime (h # rest) = Inl e \<longleftrightarrow>
     (heading_href h = None \<and> e = TypeError) \<or>
     (heading_href h \<noteq> None \<and> tag_name (next_elem rest) = Some ''P'' \<and>
      \<not> has_table (next_sib (next_elem rest)) \<and> e = RangeError)"
proof (cases "heading_href h")
  case None
  then show ?thesis by (auto simp: parseAnime_no_href)
next
  case (Some href)
  consider (P) "tag_name (next_elem rest) = Some ''P''"
    | (T) "tag_name (next_elem rest) = Some ''TABLE''"
    | (O) "tag_name (next_elem rest) \<noteq> Some ''P''" "tag_name (next_elem rest) \<noteq> Some ''TABLE''"
    by blast
  then show ?thesis
  proof cases
    case P
    then show ?thesis
      using parseTable_None_iff [of "next_sib (next_elem rest)"]
      by (cases "parseTable (next_sib (next_elem rest))")
        (auto simp: parseAnime_href [OF Some] Some Let_def)
  next
    case T
    then have "has_table (next_elem rest)"
      by (rule tag_name_has_table)
    then obtain ts where "parseTable (next_elem rest) = Some ts"
      using parseTable_None_iff by (cases "parseTable (next_elem rest)") auto
    with T show ?thesis
      by (auto simp: parseAnime_href [OF Some] Some Let_def)
  qed (auto simp: parseAnime_href [OF Some] Some Let_def)
qed


text \<open>
  C19. A heading followed by neither a paragraph nor a table (another heading, a
  \<open>div\<close> around the table, the end of the page) gets a record without
  \<open>themes\<close>: the code does not probe further, unlike the paragraph branch.
\<close>

theorem parseAnime_no_candidate:
  assumes "heading_href h \<noteq> None"
    and "tag_name (next_elem rest) \<noteq> Some ''P''" "tag_name (next_elem rest) \<noteq> Some ''TABLE''"
  shows "\<exists>a. parseAnime (h # rest) = Inr a \<and> themes a = None"
  using assms by (auto simp: parseAnime_href Let_def)


section \<open>Witnesses\<close>

theorem parseAnime_table_branch_witness:
  "heading_href mal_heading = Some (''https://myanimelist.net/anime/'' @ ''9253'' @ ''/'' @ ''Steins_Gate'') \<and>
   CHR ''/'' \<notin> set ''9253'' \<and>
   parseAnime [mal_heading, Elem ''table'' [] []] =
     Inr \<lparr>anime_id = Some ''9253'', title = ''Steins;Gate'', anime_year = None, themes = Some []\<rparr>"
proof -
  have h1: "heading_href mal_heading = Some (''https://myanimelist.net/anime/'' @ ''9253'' @ ''/'' @ ''Steins_Gate'')"
    by (simp add: heading_href_def mal_heading_def)
  have h2: "CHR ''/'' \<notin> set ''9253''"
    by simp
  show ?thesis
    using h1 h2 parseAnime_table_branch [OF h1 h2, of "[]" "[]" "[]"]
    by (simp add: mal_heading_def table_rows_def)
qed

theorem parseAnime_error_witness:
  "parseAnime [Elem ''h3'' [] [Text ''Untitled'']] = Inl TypeError \<and>
   parseAnime [mal_heading, Elem ''p'' [] [Text ''Alternative titles'']] = Inl RangeError"
proof -
  have "heading_href (Elem ''h3'' [] [Text ''Untitled'']) = None"
    by (simp add: heading_href_def)
  then have a: "parseAnime [Elem ''h3'' [] [Text ''Untitled'']] = Inl TypeError"
    using parseAnime_error [of "Elem ''h3'' [] [Text ''Untitled'']" "[]" TypeError] by simp
  have "heading_href mal_heading \<noteq> None"
    by (simp add: heading_href_def mal_heading_def)
  moreover have "\<not> has_table (next_sib (next_elem [Elem ''p'' [] [Text ''Alternative titles'']]))"
    by (simp add: has_table_def)
  ultimately have b: "parseAnime [mal_heading, Elem ''p'' [] [Text ''Alternative titles'']] = Inl RangeError"
    using parseAnime_error [of mal_heading "[Elem ''p'' [] [Text ''Alternative titles'']]" RangeError]
    by simp
  from a b show ?thesis ..
qed


theorem parseAnime_no_candidate_witness:
  "heading_href mal_heading \<noteq> None \<and>
   tag_name (next_elem [Elem ''div'' [] [wiki_table []]]) \<noteq> Some ''P'' \<and>
   tag_name (next_elem [Elem ''div'' [] [wiki_table []]]) \<noteq> Some ''TABLE'' \<and>
   (\<exists>a. parseAnime [mal_heading, Elem ''div'' [] [wiki_table []]] = Inr a \<and> themes a = None)"
proof -
  have h1: "heading_href mal_heading \<noteq> None"
    by (simp add: heading_href_def mal_heading_def)
  have h2: "tag_name (next_elem [Elem ''div'' [] [wiki_table []]]) \<noteq> Some ''P''"
    and h3: "tag_name (next_elem [Elem ''div'' [] [wiki_table []]]) \<noteq> Some ''TABLE''"
    by (simp_all add: js_upper_def upper_char_def)
  show ?thesis
    using h1 h2 h3 parseAnime_no_candidate [OF h1 h2 h3] by blast
qed

end
