(* ===== verification/Year.thy ===== *)
theory Year
  imports Anime
begin

text \<open>
  The year page fetcher of \<open>src/main.js\<close>: \<open>biribiri\<close> (lines 164--172) fetches a
  wiki page's JSON and loads its unescaped \<open>content_html\<close>; \<open>year\<close> (lines 64--78)
  runs \<open>parseAnime\<close> on every \<open>h3\<close> of the page in document order and stamps each
  record with the year.  The network and the HTML parser are parameters: \<open>http\<close>
  maps a request to the page's \<open>data.content_html\<close> (\<open>None\<close> when the field is
  missing) or to the error axios rejects with; \<open>loader\<close> is \<open>cheerio.load\<close>.

  \<open>year\<close> also assigns the instance field \<open>this.$\<close>, which \<open>parseLinks\<close> shares.
  The assignment and every later use of it within \<open>year\<close> run in one synchronous
  continuation (after the one \<open>await\<close>), and \<open>parseAnime\<close> only uses \<open>this.$\<close> to
  wrap a node it is given, so the value another year's continuation may leave there
  does not reach the result; the model therefore computes \<open>year\<close> from its own page.
\<close>

section \<open>Requests\<close>

record request =
  url :: string
  user_agent :: string

type_synonym http = "request \<Rightarrow> string option js_result"
type_synonym loader = "string \<Rightarrow> node list"

definition scraper_agent :: string where
  "scraper_agent = ''animethemes-scraper 1.0''"

text \<open>\<open>biribiri(href)\<close>: \<open>axios.get\<close> of the page's JSON with the scraper's
  \<open>User-Agent\<close>; \<open>getHTML\<close> of a missing field reads \<open>undefined.replace\<close>.\<close>

definition biribiri :: "http \<Rightarrow> loader \<Rightarrow> string \<Rightarrow> node list js_result" where
  "biribiri get load href =
     (case get \<lparr>url = ''https://reddit.com'' @ href @ ''.json'', user_agent = scraper_agent\<rparr> of
        Inl e \<Rightarrow> Inl e
      | Inr None \<Rightarrow> Inl TypeError
      | Inr (Some html) \<Rightarrow> Inr (load (getHTML html)))"

section \<open>A year's page\<close>

text \<open>
  \<open>y('h3').each(...)\<close>: \<open>parseAnime\<close> on each heading, \<open>parsed.year = n\<close>,
  \<open>animes.push(parsed)\<close>; an exception in the callback leaves the loop and
  rejects \<open>year\<close>.
\<close>

fun year_each :: "string option \<Rightarrow> anime list \<Rightarrow> cursor list \<Rightarrow> anime list js_result" where
  "year_each n animes [] = Inr animes"
| "year_each n animes (el # els) =
     (case parseAnime el of
        Inl e \<Rightarrow> Inl e
      | Inr parsed \<Rightarrow> year_each n (animes @ [parsed\<lparr>anime_year := n\<rparr>]) els)"

text \<open>\<open>year(n)\<close>: \<open>n\<close> is the segment of a year link, a string or \<open>undefined\<close>,
  concatenated into the page path as JavaScript does.\<close>

definition year :: "http \<Rightarrow> loader \<Rightarrow> string option \<Rightarrow> anime list js_result" where
  "year get load n =
     (case biribiri get load (''/r/AnimeThemes/wiki/'' @ js_str n) of
        Inl e \<Rightarrow> Inl e
      | Inr y \<Rightarrow> year_each n [] (select ''h3'' y))"

text \<open>Every theme list of a record satisfies \<open>wf_theme\<close>.\<close>

definition themes_wf :: "anime \<Rightarrow> bool" where
  "themes_wf a \<longleftrightarrow> (case themes a of None \<Rightarrow> True | Some ts \<Rightarrow> list_all wf_theme ts)"

text \<open>A one-anime year page and a network that always serves it, for the witnesses.\<close>

definition sample_page :: "node list" where
  "sample_page = [mal_heading, nl, Elem ''table'' [] theme_table_kids]"

definition serve_all :: http where
  "serve_all r = Inr (Some ''&lt;h3&gt;...'')"

section \<open>Lemmas\<close>

lemma year_each_Inr:
  "year_each n acc cs = Inr as \<longleftrightarrow>
   list_all (\<lambda>c. \<not> isl (parseAnime c)) cs \<and>
   as = acc @ map (\<lambda>c. (projr (parseAnime c))\<lparr>anime_year := n\<rparr>) cs"
proof (induction cs arbitrary: acc)
  case Nil
  then show ?case by auto
next
  case (Cons c cs)
  then show ?case by (cases "parseAnime c") auto
qed

lemma year_each_Inl:
  "year_each n acc cs = Inl e \<longleftrightarrow>
   (\<exists>pre c post. cs = pre @ c # post \<and> list_all (\<lambda>c. \<not> isl (parseAnime c)) pre \<and>
      parseAnime c = Inl e)"
proof (induction cs arbitrary: acc)
  case Nil
  then show ?case by simp
next
  case (Cons c cs)
  show ?case
  proof (cases "parseAnime c")
    case (Inl e')
    then show ?thesis
      by (auto simp: Cons_eq_append_conv intro: exI [of _ "[]"])
  next
    case (Inr a)
    have eq: "year_each n acc (c # cs) = year_each n (acc @ [a\<lparr>anime_year := n\<rparr>]) cs"
      using Inr by simp
    show ?thesis
      unfolding eq Cons.IH
    proof
      assume "\<exists>pre c' post. cs = pre @ c' # post \<and> list_all (\<lambda>c. \<not> isl (parseAnime c)) pre \<and>
        parseAnime c' = Inl e"
      then obtain pre c' post where "cs = pre @ c' # post"
        "list_all (\<lambda>c. \<not> isl (parseAnime c)) pre" "parseAnime c' = Inl e"
        by blast
      with Inr show "\<exists>pre c' post. c # cs = pre @ c' # post \<and>
        list_all (\<lambda>c. \<not> isl (parseAnime c)) pre \<and> parseAnime c' = Inl e"
        by (intro exI [of _ "c # pre"] exI [of _ c'] exI [of _ post]) simp
    next
      assume "\<exists>pre c' post. c # cs = pre @ c' # post \<and>
        list_all (\<lambda>c. \<not> isl (parseAnime c)) pre \<and> parseAnime c' = Inl e"
      then obtain pre c' post where split: "c # cs = pre @ c' # post"
        and ok: "list_all (\<lambda>c. \<not> isl (parseAnime c)) pre" and err: "parseAnime c' = Inl e"
        by blast
      show "\<exists>pre c' post. cs = pre @ c' # post \<and> list_all (\<lambda>c. \<not> isl (parseAnime c)) pre \<and>
        parseAnime c' = Inl e"
      proof (cases pre)
        case Nil
        with split err Inr show ?thesis by simp
      next
        case (Cons p pre')
        with split ok err show ?thesis by auto
      qed
    qed
  qed
qed

lemma parse_row_wf: "wf_theme (parse_row tr)"
  by (simp add: parse_row_def wf_theme_def Let_def)

lemma parseTable_wf: "parseTable c = Some ts \<Longrightarrow> list_all wf_theme ts"
  by (auto simp: parseTable_eq table_rows_def list_all_iff parse_row_wf)

lemma parseAnime_wf: "parseAnime c = Inr a \<Longrightarrow> themes_wf a"
  by (auto simp: parseAnime_def themes_wf_def Let_def parseTable_wf
      split: option.splits if_splits)


lemma year_records:
  assumes "year get load n = Inr as" "a \<in> set as"
  shows "anime_year a = n \<and> themes_wf a"
proof -
  from assms(1) obtain doc where
    ok: "list_all (\<lambda>c. \<not> isl (parseAnime c)) (select ''h3'' doc)" and
    as: "as = map (\<lambda>c. (projr (parseAnime c))\<lparr>anime_year := n\<rparr>) (select ''h3'' doc)"
    by (auto simp: year_def year_each_Inr split: sum.splits)
  with assms(2) obtain c where c: "c \<in> set (select ''h3'' doc)"
    and a: "a = (projr (parseAnime c))\<lparr>anime_year := n\<rparr>"
    by auto
  from ok c have "parseAnime c = Inr (projr (parseAnime c))"
    by (cases "parseAnime c") (auto simp: list_all_iff)
  then have "themes_wf (projr (parseAnime c))"
    by (rule parseAnime_wf)
  with a show ?thesis by (simp add: themes_wf_def)
qed

section \<open>Properties of the year page fetcher\<close>


text \<open>
  C14. Errors of \<open>year\<close>: it raises exactly the error of the fetch, or else the
  error of the first heading whose \<open>parseAnime\<close> raises.
\<close>

theorem year_error:
  "year get load n = Inl e \<longleftrightarrow>
   biribiri get load (''/r/AnimeThemes/wiki/'' @ js_str n) = Inl e \<or>
   (\<exists>doc pre c post. biribiri get load (''/r/AnimeThemes/wiki/'' @ js_str n) = Inr doc \<and>
      select ''h3'' doc = pre @ c # post \<and> list_all (\<lambda>c. \<not> isl (parseAnime c)) pre \<and>
      parseAnime c = Inl e)"
  by (auto simp: year_def year_each_Inl split: sum.splits)

text \<open>
  C15. Every record \<open>year n\<close> returns carries the year \<open>n\<close>, and every theme in it
  has the type its name determines (\<open>opening\<close> exactly for names starting with
  \<open>OP\<close>).
\<close>

theorem year_records_wf:
  assumes "year get load n = Inr as" "a \<in> set as"
  shows "anime_year a = n \<and> themes_wf a"
  using assms by (rule year_records)

section \<open>Witnesses\<close>

lemma year_sample:
  "year serve_all (\<lambda>_. sample_page) (Some ''2009'') =
   Inr [\<lparr>anime_id = Some ''9253'', title = ''Steins;Gate'', anime_year = Some ''2009'',
         themes = Some [theme_of (''OP1'', ''u'', '''', '''')]\<rparr>]"
  by (simp add: year_def biribiri_def serve_all_def sample_page_def select_def
      parseAnime_def mal_heading_def theme_table_kids_def table_rows_def parse_row_def
      js_split_append_sep js_index_def Let_def)


theorem year_error_witness:
  "year (\<lambda>_. Inl NetworkError) (\<lambda>_. sample_page) (Some ''2009'') = Inl NetworkError \<and>
   year serve_all (\<lambda>_. [mal_heading, Elem ''p'' [] []]) (Some ''2009'') = Inl RangeError"
proof
  have "biribiri (\<lambda>_. Inl NetworkError) (\<lambda>_. sample_page) (''/r/AnimeThemes/wiki/'' @ js_str (Some ''2009'')) =
        Inl NetworkError"
    by (simp add: biribiri_def)
  then show "year (\<lambda>_. Inl NetworkError) (\<lambda>_. sample_page) (Some ''2009'') = Inl NetworkError"
    using year_error by blast
  have doc: "biribiri serve_all (\<lambda>_. [mal_heading, Elem ''p'' [] []]) (''/r/AnimeThemes/wiki/'' @ js_str (Some ''2009'')) =
        Inr [mal_heading, Elem ''p'' [] []]"
    by (simp add: biribiri_def serve_all_def)
  have sel: "select ''h3'' [mal_heading, Elem ''p'' [] []] = [] @ [mal_heading, Elem ''p'' [] []] # []"
    by (simp add: select_def mal_heading_def)
  have err: "parseAnime [mal_heading, Elem ''p'' [] []] = Inl RangeError"
    by (simp add: parseAnime_def mal_heading_def parseTable_eq)
  show "year serve_all (\<lambda>_. [mal_heading, Elem ''p'' [] []]) (Some ''2009'') = Inl RangeError"
    using year_error doc sel err by fastforce
qed

theorem year_records_wf_witness:
  "year serve_all (\<lambda>_. sample_page) (Some ''2009'') =
     Inr [\<lparr>anime_id = Some ''9253'', title = ''Steins;Gate'', anime_year = Some ''2009'',
           themes = Some [theme_of (''OP1'', ''u'', '''', '''')]\<rparr>] \<and>
   anime_year \<lparr>anime_id = Some ''9253'', title = ''Steins;Gate'', anime_year = Some ''2009'',
           themes = Some [theme_of (''OP1'', ''u'', '''', '''')]\<rparr> = Some ''2009'' \<and>
   themes_wf \<lparr>anime_id = Some ''9253'', title = ''Steins;Gate'', anime_year = Some ''2009'',
           themes = Some [theme_of (''OP1'', ''u'', '''', '''')]\<rparr>"
  using year_sample year_records_wf [OF year_sample] by simp

end
