(* ===== verification/Orchestrator.thy ===== *)
theory Orchestrator
  imports Year
begin

text \<open>
  The index orchestrator of \<open>src/main.js\<close>: \<open>all\<close> (lines 36--57) fetches the
  year index and calls \<open>parseLinks\<close> (lines 80--97), which starts \<open>year\<close> for
  every link inside an \<open>h3\<close> and collects the results in the instance fields
  \<open>this.animes\<close> and \<open>this.finl\<close> from the \<open>.then\<close> callbacks, resolving when
  the counter reaches the number of links.

  The year fetches run concurrently and their callbacks run in completion order, one
  at a time (JavaScript runs each callback to its end).  The model is therefore a step
  relation: \<open>links_step outs\<close> runs the callback of one year fetch that has completed
  with a result, in any order; \<open>outs\<close> are the outcomes of the fetches in link order.
  A fetch that fails (a rejected \<open>year\<close> promise, or a link without \<open>href\<close>,
  whose \<open>.split\<close> throws in the \<open>each\<close> callback before \<open>year\<close> starts) has no
  \<open>.then\<close> step: nothing catches the rejection, so its callback never runs.
  \<open>settled\<close> is bookkeeping of the model, not of the code: the fetches whose
  callback has run, in order, so that none runs twice.
\<close>

section \<open>State and steps\<close>

record links_state =
  animes :: "anime list"
  finl :: nat
  settled :: "nat list"
  resolved :: "anime list option"

text \<open>\<open>this.animes = []\<close> (line 39), \<open>this.finl = 0\<close> (line 83), nothing resolved.\<close>

definition links_init :: links_state where
  "links_init = \<lparr>animes = [], finl = 0, settled = [], resolved = None\<rparr>"

text \<open>
  The \<open>.then\<close> callback of fetch \<open>i\<close> with result \<open>as\<close>: concatenate, count, and
  resolve the \<open>parseLinks\<close> promise when the count equals \<open>years.length\<close>
  (a promise keeps the first value it is resolved with).
\<close>

definition then_cb :: "nat \<Rightarrow> nat \<Rightarrow> anime list \<Rightarrow> links_state \<Rightarrow> links_state" where
  "then_cb n i as s =
     (let s' = s\<lparr>animes := animes s @ as, finl := finl s + 1, settled := settled s @ [i]\<rparr>
      in if finl s' = n
         then s'\<lparr>resolved := (case resolved s' of None \<Rightarrow> Some (animes s') | Some r \<Rightarrow> Some r)\<rparr>
         else s')"

inductive links_step :: "anime list js_result list \<Rightarrow> links_state \<Rightarrow> links_state \<Rightarrow> bool"
  for outs where
  complete: "i < length outs \<Longrightarrow> i \<notin> set (settled s) \<Longrightarrow> outs ! i = Inr as \<Longrightarrow>
    links_step outs s (then_cb (length outs) i as s)"

inductive links_reach :: "anime list js_result list \<Rightarrow> links_state \<Rightarrow> bool"
  for outs where
  init: "links_reach outs links_init"
| step: "links_reach outs s \<Longrightarrow> links_step outs s t \<Longrightarrow> links_reach outs t"

inductive_cases links_stepE: "links_step outs s t"

section \<open>Starting the fetches\<close>

text \<open>
  One year link (the body of the \<open>each\<close> callback, line 86): the year is segment 4
  of its \<open>href\<close> split at \<open>/\<close>; a link without \<open>href\<close> throws a \<open>TypeError\<close>.
\<close>

definition dispatch :: "http \<Rightarrow> loader \<Rightarrow> cursor \<Rightarrow> anime list js_result" where
  "dispatch get load yearElement =
     (case attr ''href'' yearElement of
        None \<Rightarrow> Inl TypeError
      | Some href \<Rightarrow> year get load (js_index (js_split CHR ''/'' href) 4))"

definition index_url :: string where
  "index_url = ''https://reddit.com/r/AnimeThemes/wiki/year_index.json''"

text \<open>
  \<open>all()\<close> up to \<open>parseLinks\<close>: fetch and load the index (a failure rejects
  \<open>all\<close>), then start one fetch per \<open>h3 a\<close> link; the result is the outcomes the
  callbacks of \<open>parseLinks\<close> will see.
\<close>

definition all_start :: "http \<Rightarrow> loader \<Rightarrow> anime list js_result list js_result" where
  "all_start get load =
     (case get \<lparr>url = index_url, user_agent = scraper_agent\<rparr> of
        Inl e \<Rightarrow> Inl e
      | Inr None \<Rightarrow> Inl TypeError
      | Inr (Some html) \<Rightarrow>
          Inr (map (dispatch get load) (select_desc ''h3'' ''a'' (load (getHTML html)))))"

text \<open>The invariant of \<open>parseLinks\<close>'s shared state.\<close>

definition links_inv :: "anime list js_result list \<Rightarrow> links_state \<Rightarrow> bool" where
  "links_inv outs s \<longleftrightarrow>
     distinct (settled s) \<and>
     (\<forall>i \<in> set (settled s). i < length outs \<and> \<not> isl (outs ! i)) \<and>
     finl s = length (settled s) \<and>
     animes s = concat (map (\<lambda>i. projr (outs ! i)) (settled s)) \<and>
     resolved s = (if finl s = length outs \<and> settled s \<noteq> [] then Some (animes s) else None)"

text \<open>Two records of year pages, for the witnesses.\<close>

definition anime_1990 :: anime where
  "anime_1990 = \<lparr>anime_id = Some ''1'', title = ''A'', anime_year = Some ''1990'', themes = Some []\<rparr>"

definition anime_1991 :: anime where
  "anime_1991 = \<lparr>anime_id = Some ''2'', title = ''B'', anime_year = Some ''1991'', themes = Some []\<rparr>"

section \<open>The invariant\<close>

lemma settled_all:
  assumes "distinct xs" "\<forall>i \<in> set xs. i < n" "length xs = n"
  shows "set xs = {..<n}"
proof -
  have "set xs \<subseteq> {..<n}" using assms(2) by auto
  moreover have "card (set xs) = card {..<n}"
    using assms(1,3) by (simp add: distinct_card)
  ultimately show ?thesis
    by (simp add: card_subset_eq)
qed

lemma links_inv_init: "links_inv outs links_init"
  by (simp add: links_inv_def links_init_def)

lemma then_cb_animes [simp]: "animes (then_cb n i as s) = animes s @ as"
  and then_cb_finl [simp]: "finl (then_cb n i as s) = Suc (finl s)"
  and then_cb_settled [simp]: "settled (then_cb n i as s) = settled s @ [i]"
  by (simp_all add: then_cb_def Let_def)

lemma then_cb_resolved [simp]:
  "resolved (then_cb n i as s) =
   (if Suc (finl s) = n
    then (case resolved s of None \<Rightarrow> Some (animes s @ as) | Some r \<Rightarrow> Some r)
    else resolved s)"
  by (simp add: then_cb_def Let_def split: option.split)

lemma links_invD:
  assumes "links_inv outs s"
  shows "distinct (settled s)" "\<forall>i \<in> set (settled s). i < length outs"
    "\<forall>i \<in> set (settled s). \<not> isl (outs ! i)"
    "finl s = length (settled s)"
    "animes s = concat (map (\<lambda>i. projr (outs ! i)) (settled s))"
    "resolved s = (if finl s = length outs \<and> settled s \<noteq> [] then Some (animes s) else None)"
  using assms unfolding links_inv_def by blast+

text \<open>While a fetch is unsettled the counter is below the number of links.\<close>

lemma unsettled_count:
  assumes "links_inv outs s" "i < length outs" "i \<notin> set (settled s)"
  shows "finl s \<noteq> length outs"
proof
  assume "finl s = length outs"
  then have "length (settled s) = length outs"
    using links_invD(4) [OF assms(1)] by simp
  then have "set (settled s) = {..<length outs}"
    using settled_all links_invD(1,2) [OF assms(1)] by blast
  with assms(2,3) show False by blast
qed

lemma links_step_inv:
  assumes "links_step outs s t" "links_inv outs s"
  shows "links_inv outs t"
  using assms(1)
proof cases
  case (complete i as)
  note inv = links_invD [OF assms(2)]
  have none: "resolved s = None"
    using inv(6) unsettled_count [OF assms(2) complete(2,3)] by simp
  have d: "distinct (settled t)"
    using complete(1,3) inv(1) by simp
  have b: "\<forall>j \<in> set (settled t). j < length outs \<and> \<not> isl (outs ! j)"
    using complete(1-4) inv(2,3) by auto
  have f: "finl t = length (settled t)"
    using complete(1) inv(4) by simp
  have a: "animes t = concat (map (\<lambda>j. projr (outs ! j)) (settled t))"
    using complete(1,4) inv(5) by simp
  have r: "resolved t = (if finl t = length outs \<and> settled t \<noteq> [] then Some (animes t) else None)"
    using complete(1) none by simp
  from d b f a r show ?thesis
    unfolding links_inv_def by blast
qed

lemma links_reach_inv: "links_reach outs s \<Longrightarrow> links_inv outs s"
  by (induction rule: links_reach.induct) (auto intro: links_inv_init links_step_inv)

lemma settled_bound:
  assumes "links_inv outs s"
  shows "length (settled s) \<le> length outs"
proof -
  have "set (settled s) \<subseteq> {..<length outs}"
    using links_invD(2) [OF assms] by auto
  then have "card (set (settled s)) \<le> card {..<length outs}"
    by (rule card_mono [rotated]) simp
  then show ?thesis
    using distinct_card [OF links_invD(1) [OF assms]] by simp
qed

lemma resolved_all_settled:
  assumes "links_inv outs s" "resolved s = Some r"
  shows "set (settled s) = {..<length outs}" "settled s \<noteq> []" "r = animes s"
proof -
  have c: "finl s = length outs \<and> settled s \<noteq> []" and r: "r = animes s"
    using links_invD(6) [OF assms(1)] assms(2) by (auto split: if_splits)
  then have "length (settled s) = length outs"
    using links_invD(4) [OF assms(1)] by simp
  then show "set (settled s) = {..<length outs}"
    using settled_all links_invD(1,2) [OF assms(1)] by blast
  show "settled s \<noteq> []" "r = animes s" using c r by auto
qed

lemma links_step_at:
  "n = length outs \<Longrightarrow> i < n \<Longrightarrow> i \<notin> set (settled s) \<Longrightarrow> outs ! i = Inr as \<Longrightarrow>
   links_step outs s (then_cb n i as s)"
  using links_step.complete by blast

lemma mset_concat_map:
  "mset (concat (map f xs)) = sum_mset (image_mset (\<lambda>x. mset (f x)) (mset xs))"
  by (induction xs) auto

lemma unsettled_exists:
  assumes "links_inv outs s" "length (settled s) < length outs"
  shows "\<exists>i < length outs. i \<notin> set (settled s)"
proof (rule ccontr)
  assume "\<not> ?thesis"
  then have "{..<length outs} \<subseteq> set (settled s)" by auto
  then have "card {..<length outs} \<le> card (set (settled s))"
    by (rule card_mono [rotated]) simp
  with distinct_card [OF links_invD(1) [OF assms(1)]] assms(2) show False by simp
qed

lemma links_reach_first:
  "links_reach [Inr xs, Inr ys] (then_cb 2 0 xs links_init)"
  "links_reach [Inr xs, Inr ys] (then_cb 2 1 ys links_init)"
proof -
  show "links_reach [Inr xs, Inr ys] (then_cb 2 0 xs links_init)"
    by (rule links_reach.step [OF links_reach.init], rule links_step_at) (auto simp: links_init_def)
  show "links_reach [Inr xs, Inr ys] (then_cb 2 1 ys links_init)"
    by (rule links_reach.step [OF links_reach.init], rule links_step_at) (auto simp: links_init_def)
qed

lemma links_reach_both:
  "links_reach [Inr xs, Inr ys] (then_cb 2 1 ys (then_cb 2 0 xs links_init))"
  "links_reach [Inr xs, Inr ys] (then_cb 2 0 xs (then_cb 2 1 ys links_init))"
proof -
  show "links_reach [Inr xs, Inr ys] (then_cb 2 1 ys (then_cb 2 0 xs links_init))"
    by (rule links_reach.step [OF links_reach_first(1)], rule links_step_at)
      (auto simp: links_init_def)
  show "links_reach [Inr xs, Inr ys] (then_cb 2 0 xs (then_cb 2 1 ys links_init))"
    by (rule links_reach.step [OF links_reach_first(2)], rule links_step_at)
      (auto simp: links_init_def)
qed

text \<open>A resolved value is the concatenation of all the years' lists in some order
  of the links.\<close>

lemma resolved_order:
  assumes "links_reach outs s" "resolved s = Some r"
  shows "\<exists>p. distinct p \<and> set p = {..<length outs} \<and> r = concat (map (\<lambda>i. projr (outs ! i)) p)"
proof -
  have inv: "links_inv outs s"
    using assms(1) by (rule links_reach_inv)
  note all = resolved_all_settled [OF inv assms(2)]
  show ?thesis
    using all(1,3) links_invD(1,5) [OF inv] by blast
qed

lemma two_orders:
  assumes "distinct p" "set p = {..<2::nat}"
  shows "p = [0, 1] \<or> p = [1, 0]"
proof -
  have "length p = 2"
    using distinct_card [OF assms(1)] assms(2) by simp
  then obtain x y where p: "p = [x, y]"
    by (auto simp: length_Suc_conv numeral_2_eq_2)
  have "x < 2" "y < 2" "x \<noteq> y"
    using assms p by (auto simp: set_eq_iff)
  with p show ?thesis by auto
qed

text \<open>A fetch without result keeps \<open>parseLinks\<close> from resolving.\<close>

lemma failed_fetch_blocks:
  assumes "links_reach outs s" "i < length outs" "isl (outs ! i)"
  shows "resolved s = None"
proof (rule ccontr)
  assume "resolved s \<noteq> None"
  then obtain r where r: "resolved s = Some r" by auto
  have inv: "links_inv outs s"
    using assms(1) by (rule links_reach_inv)
  have "i \<in> set (settled s)"
    using resolved_all_settled(1) [OF inv r] assms(2) by auto
  with links_invD(3) [OF inv] assms(3) show False by auto
qed

lemma resolved_value:
  assumes "links_reach outs s" "resolved s = Some r"
  shows "list_all (\<lambda>x. \<not> isl x) outs \<and> mset r = mset (concat (map projr outs)) \<and>
    length r = sum_list (map (\<lambda>x. length (projr x)) outs)"
proof -
  have inv: "links_inv outs s"
    using assms(1) by (rule links_reach_inv)
  note all = resolved_all_settled [OF inv assms(2)]
  have ok: "list_all (\<lambda>x. \<not> isl x) outs"
    using links_invD(3) [OF inv] all(1) by (auto simp: list_all_length)
  have "mset (settled s) = mset_set (set (settled s))"
    using links_invD(1) [OF inv] by (simp add: mset_set_set)
  also have "\<dots> = mset_set (set [0..<length outs])"
    using all(1) by (simp add: lessThan_atLeast0)
  also have "\<dots> = mset [0..<length outs]"
    by (rule mset_set_set) simp
  finally have "mset (settled s) = mset [0..<length outs]" .
  then have "mset r = mset (concat (map (\<lambda>i. projr (outs ! i)) [0..<length outs]))"
    using all(3) links_invD(5) [OF inv] by (simp add: mset_concat_map)
  also have "map (\<lambda>i. projr (outs ! i)) [0..<length outs] = map projr outs"
    by (rule nth_equalityI) auto
  finally have m: "mset r = mset (concat (map projr outs))" .
  then have "length r = length (concat (map projr outs))"
    by (metis size_mset)
  with ok m show ?thesis
    by (simp add: length_concat comp_def)
qed

lemma progress_from:
  assumes "links_reach outs s" "outs \<noteq> []" "list_all (\<lambda>x. \<not> isl x) outs"
  shows "\<exists>t. (links_step outs)\<^sup>*\<^sup>* s t \<and> resolved t \<noteq> None"
proof -
  have "\<And>s. links_reach outs s \<Longrightarrow> length outs - length (settled s) = k \<Longrightarrow>
      \<exists>t. (links_step outs)\<^sup>*\<^sup>* s t \<and> resolved t \<noteq> None" for k
  proof (induction k)
    case 0
    have inv: "links_inv outs s"
      using "0.prems"(1) by (rule links_reach_inv)
    have "length (settled s) = length outs"
      using "0.prems"(2) settled_bound [OF inv] by simp
    with assms(2) links_invD(4,6) [OF inv] have "resolved s \<noteq> None" by auto
    then show ?case by blast
  next
    case (Suc k)
    have inv: "links_inv outs s"
      using Suc.prems(1) by (rule links_reach_inv)
    have "length (settled s) < length outs"
      using Suc.prems(2) by simp
    then obtain i where i: "i < length outs" "i \<notin> set (settled s)"
      using unsettled_exists [OF inv] by blast
    then obtain as where as: "outs ! i = Inr as"
      using assms(3) by (cases "outs ! i") (auto simp: list_all_length)
    let ?t = "then_cb (length outs) i as s"
    have st: "links_step outs s ?t"
      using i as by (rule links_step.complete)
    have "links_reach outs ?t"
      using Suc.prems(1) st by (rule links_reach.step)
    moreover have "length outs - length (settled ?t) = k"
      using Suc.prems(2) by simp
    ultimately obtain t where "(links_step outs)\<^sup>*\<^sup>* ?t t" "resolved t \<noteq> None"
      using Suc.IH by blast
    with st show ?case
      by (meson converse_rtranclp_into_rtranclp)
  qed
  then show ?thesis
    using assms(1) by blast
qed

section \<open>Properties of the orchestrator\<close>

text \<open>
  C2. Aggregation: once \<open>parseLinks\<close> has resolved, every year fetch succeeded and
  the resolved list is a permutation of the concatenation of all the years' lists
  (in completion order, not link order); in particular its length is the sum of
  their lengths.
\<close>

theorem links_resolved:
  assumes "links_reach outs s" "resolved s = Some r"
  shows "list_all (\<lambda>x. \<not> isl x) outs \<and> mset r = mset (concat (map projr outs)) \<and>
    length r = sum_list (map (\<lambda>x. length (projr x)) outs)"
  using assms by (rule resolved_value)

text \<open>
  C7. The documented hang: if some link's fetch fails, or the index has no year
  link at all, \<open>parseLinks\<close> never resolves, whatever the order of completions.
\<close>

theorem links_never_resolves:
  assumes "links_reach outs s" "outs = [] \<or> (\<exists>i < length outs. isl (outs ! i))"
  shows "resolved s = None"
  using assms(2)
proof
  assume "outs = []"
  show ?thesis
  proof (rule ccontr)
    assume "resolved s \<noteq> None"
    then obtain r where r: "resolved s = Some r" by auto
    have inv: "links_inv outs s"
      using assms(1) by (rule links_reach_inv)
    with resolved_all_settled(1,2) [OF inv r] \<open>outs = []\<close> show False by simp
  qed
next
  assume "\<exists>i < length outs. isl (outs ! i)"
  then show ?thesis
    using failed_fetch_blocks [OF assms(1)] by blast
qed

text \<open>
  C16. Progress: if the index has at least one link and every year fetch succeeds,
  then from every reachable state some order of the remaining completions resolves
  \<open>parseLinks\<close>.
\<close>

theorem links_progress:
  assumes "links_reach outs s" "outs \<noteq> []" "list_all (\<lambda>x. \<not> isl x) outs"
  shows "\<exists>t. (links_step outs)\<^sup>*\<^sup>* s t \<and> resolved t \<noteq> None"
  using assms by (rule progress_from)

text \<open>
  C17. The completion counter never exceeds the number of year links, and the
  promise is resolved exactly when the counter has reached that number and at least
  one callback has run.
\<close>

theorem links_counter_bound:
  assumes "links_reach outs s"
  shows "finl s \<le> length outs \<and> (resolved s \<noteq> None \<longleftrightarrow> 0 < finl s \<and> finl s = length outs)"
proof -
  have inv: "links_inv outs s"
    using assms by (rule links_reach_inv)
  show ?thesis
    using settled_bound [OF inv] links_invD(4,6) [OF inv] by auto
qed

text \<open>
  C28. Order of the resolved list: it is the concatenation of the years' lists, each
  year's list whole and in page order, the years in some order in which each link
  occurs exactly once (the order their fetches completed).
\<close>

theorem links_result_order:
  assumes "links_reach outs s" "resolved s = Some r"
  shows "\<exists>p. distinct p \<and> set p = {..<length outs} \<and> r = concat (map (\<lambda>i. projr (outs ! i)) p)"
  using assms by (rule resolved_order)

section \<open>Witnesses\<close>

theorem links_resolved_witness:
  "links_reach [Inr [anime_1990], Inr [anime_1991]]
     (then_cb 2 0 [anime_1990] (then_cb 2 1 [anime_1991] links_init)) \<and>
   resolved (then_cb 2 0 [anime_1990] (then_cb 2 1 [anime_1991] links_init)) =
     Some [anime_1991, anime_1990] \<and>
   mset [anime_1991, anime_1990] = mset (concat (map projr [Inr [anime_1990], Inr [anime_1991]]))"
proof -
  let ?s = "then_cb 2 0 [anime_1990] (then_cb 2 1 [anime_1991] links_init)"
  have r: "links_reach [Inr [anime_1990], Inr [anime_1991]] ?s"
    by (rule links_reach_both(2))
  have v: "resolved ?s = Some [anime_1991, anime_1990]"
    by (simp add: links_init_def)
  show ?thesis
    using r v links_resolved [OF r v] by simp
qed

theorem links_never_resolves_witness:
  "links_reach [Inr [anime_1990], Inl NetworkError] (then_cb 2 0 [anime_1990] links_init) \<and>
   resolved (then_cb 2 0 [anime_1990] links_init) = None"
proof -
  have r: "links_reach [Inr [anime_1990], Inl NetworkError] (then_cb 2 0 [anime_1990] links_init)"
    by (rule links_reach.step [OF links_reach.init], rule links_step_at) (auto simp: links_init_def)
  have "[Inr [anime_1990], Inl NetworkError] = [] \<or>
        (\<exists>i < length [Inr [anime_1990], Inl NetworkError :: anime list js_result].
           isl ([Inr [anime_1990], Inl NetworkError] ! i))"
    by (auto intro: exI [of _ 1])
  with r show ?thesis
    using links_never_resolves by blast
qed

theorem links_progress_witness:
  "\<exists>t. (links_step [Inr [anime_1990]])\<^sup>*\<^sup>* links_init t \<and> resolved t \<noteq> None"
proof -
  have "links_reach [Inr [anime_1990]] links_init" by (rule links_reach.init)
  moreover have "[Inr [anime_1990]] \<noteq> ([] :: anime list js_result list)" by simp
  moreover have "list_all (\<lambda>x. \<not> isl x) [Inr [anime_1990] :: anime list js_result]" by simp
  ultimately show ?thesis by (rule links_progress)
qed

theorem links_counter_bound_witness:
  "finl (then_cb 2 1 [anime_1991] (then_cb 2 0 [anime_1990] links_init)) \<le> 2 \<and>
   resolved (then_cb 2 1 [anime_1991] (then_cb 2 0 [anime_1990] links_init)) \<noteq> None"
proof -
  let ?s = "then_cb 2 1 [anime_1991] (then_cb 2 0 [anime_1990] links_init)"
  have r: "links_reach [Inr [anime_1990], Inr [anime_1991]] ?s"
    by (rule links_reach_both(1))
  show ?thesis
    using links_counter_bound [OF r] by (simp add: links_init_def)
qed

theorem links_result_order_witness:
  "\<exists>p. distinct p \<and> set p = {..<2} \<and>
     [anime_1991, anime_1990] =
       concat (map (\<lambda>i. projr (([Inr [anime_1990], Inr [anime_1991]] :: anime list js_result list) ! i)) p)"
proof -
  have "resolved (then_cb 2 0 [anime_1990] (then_cb 2 1 [anime_1991] links_init)) =
        Some [anime_1991, anime_1990]"
    by (simp add: links_init_def)
  from links_result_order [OF links_reach_both(2) this] show ?thesis by (simp add: numeral_2_eq_2)
qed

end
