(* ===== verification/Aggregate.thy ===== *)
theory Aggregate
  imports Orchestrator
begin

text \<open>
  The contract of the aggregation in \<open>parseLinks\<close> (\<open>src/main.js\<close>, lines
  80--97) and the proof that the code implements it.  The contract forgets the order
  of the records and the counter: a finished fetch adds its records to a multiset,
  and once every link has finished the promise holds that multiset.  The
  abstraction \<open>abs_links\<close> maps the code's state to the contract's; every
  callback of the code is a step of the contract (a forward simulation), so every
  reachable state of the code is abstractly reachable and the contract's
  guarantees carry over.
\<close>

section \<open>The contract\<close>

record agg =
  collected :: "anime multiset"
  finished :: "nat set"
  outcome :: "anime multiset option"

definition agg_init :: agg where
  "agg_init = \<lparr>collected = {#}, finished = {}, outcome = None\<rparr>"

text \<open>One fetch \<open>i\<close> that has succeeded with \<open>as\<close> finishes; the outcome is fixed
  when the last link finishes.\<close>

inductive agg_step :: "anime list js_result list \<Rightarrow> agg \<Rightarrow> agg \<Rightarrow> bool"
  for outs where
  finish: "i < length outs \<Longrightarrow> i \<notin> finished a \<Longrightarrow> outs ! i = Inr as \<Longrightarrow>
    agg_step outs a
      \<lparr>collected = collected a + mset as, finished = insert i (finished a),
       outcome = (if insert i (finished a) = {..<length outs}
                  then Some (collected a + mset as) else outcome a)\<rparr>"

inductive agg_reach :: "anime list js_result list \<Rightarrow> agg \<Rightarrow> bool"
  for outs where
  init: "agg_reach outs agg_init"
| step: "agg_reach outs a \<Longrightarrow> agg_step outs a b \<Longrightarrow> agg_reach outs b"

definition agg_inv :: "anime list js_result list \<Rightarrow> agg \<Rightarrow> bool" where
  "agg_inv outs a \<longleftrightarrow>
     finite (finished a) \<and>
     (\<forall>i \<in> finished a. i < length outs \<and> \<not> isl (outs ! i)) \<and>
     collected a = (\<Sum>i \<in> finished a. mset (projr (outs ! i))) \<and>
     outcome a = (if finished a = {..<length outs} \<and> finished a \<noteq> {}
                  then Some (collected a) else None)"

section \<open>The abstraction\<close>

definition abs_links :: "links_state \<Rightarrow> agg" where
  "abs_links s = \<lparr>collected = mset (animes s), finished = set (settled s),
     outcome = map_option mset (resolved s)\<rparr>"

section \<open>The contract's invariant\<close>

lemma agg_inv_init: "agg_inv outs agg_init"
  by (simp add: agg_inv_def agg_init_def)

lemma agg_step_inv:
  assumes "agg_step outs a b" "agg_inv outs a"
  shows "agg_inv outs b"
  using assms(1)
proof cases
  case (finish i as)
  have fin: "finite (finished a)" and bnd: "\<forall>j \<in> finished a. j < length outs \<and> \<not> isl (outs ! j)"
    and col: "collected a = (\<Sum>j \<in> finished a. mset (projr (outs ! j)))"
    and out: "outcome a = (if finished a = {..<length outs} \<and> finished a \<noteq> {}
                           then Some (collected a) else None)"
    using assms(2) unfolding agg_inv_def by blast+
  have "finished a \<noteq> {..<length outs}"
    using finish(2,3) by blast
  then have none: "outcome a = None"
    using out by simp
  have "collected a + mset as = (\<Sum>j \<in> insert i (finished a). mset (projr (outs ! j)))"
    using fin finish(3,4) col by simp
  with fin bnd none finish show ?thesis
    unfolding agg_inv_def by auto
qed

lemma agg_reach_inv: "agg_reach outs a \<Longrightarrow> agg_inv outs a"
  by (induction rule: agg_reach.induct) (auto intro: agg_inv_init agg_step_inv)

section \<open>Simulation\<close>

lemma insert_settled_all:
  assumes "links_inv outs s" "i < length outs" "i \<notin> set (settled s)"
  shows "insert i (set (settled s)) = {..<length outs} \<longleftrightarrow> Suc (length (settled s)) = length outs"
proof
  assume "insert i (set (settled s)) = {..<length outs}"
  then have "card (set (i # settled s)) = length outs" by simp
  then show "Suc (length (settled s)) = length outs"
    using assms(3) links_invD(1) [OF assms(1)] by (simp add: distinct_card)
next
  assume "Suc (length (settled s)) = length outs"
  then have "set (i # settled s) = {..<length outs}"
    using settled_all [of "i # settled s"] assms(2,3) links_invD(1,2) [OF assms(1)] by simp
  then show "insert i (set (settled s)) = {..<length outs}" by simp
qed

lemma links_step_simulates:
  assumes "links_step outs s t" "links_inv outs s"
  shows "agg_step outs (abs_links s) (abs_links t)"
  using assms(1)
proof cases
  case (complete i as)
  note inv = links_invD [OF assms(2)]
  have none: "resolved s = None"
    using inv(6) unsettled_count [OF assms(2) complete(2,3)] by simp
  have all: "insert i (set (settled s)) = {..<length outs} \<longleftrightarrow> Suc (finl s) = length outs"
    using insert_settled_all [OF assms(2) complete(2,3)] inv(4) by simp
  have "abs_links t =
    \<lparr>collected = collected (abs_links s) + mset as, finished = insert i (finished (abs_links s)),
     outcome = (if insert i (finished (abs_links s)) = {..<length outs}
                then Some (collected (abs_links s) + mset as) else outcome (abs_links s))\<rparr>"
    using complete(1) none all by (simp add: abs_links_def)
  moreover have "agg_step outs (abs_links s)
    \<lparr>collected = collected (abs_links s) + mset as, finished = insert i (finished (abs_links s)),
     outcome = (if insert i (finished (abs_links s)) = {..<length outs}
                then Some (collected (abs_links s) + mset as) else outcome (abs_links s))\<rparr>"
    using complete(2-4) by (intro agg_step.finish) (simp_all add: abs_links_def)
  ultimately show ?thesis by simp
qed

lemma abs_links_init: "abs_links links_init = agg_init"
  by (simp add: abs_links_def links_init_def agg_init_def)

lemma links_reach_abs: "links_reach outs s \<Longrightarrow> agg_reach outs (abs_links s)"
proof (induction rule: links_reach.induct)
  case init
  then show ?case
    by (simp add: abs_links_init agg_reach.init)
next
  case (step s t)
  then show ?case
    using links_step_simulates links_reach_inv agg_reach.step by blast
qed

section \<open>Records of a run\<close>

section \<open>Properties of the aggregation\<close>

text \<open>
  C9. Refinement: every callback of \<open>parseLinks\<close> from a reachable state is a
  step of the contract on the abstracted states, and the abstraction of the state
  it reaches is reachable in the contract: the collected multiset grows by the
  fetch's records, the fetch is finished, and the promise is resolved, with the
  collected multiset, exactly when the last link finishes.
\<close>

theorem links_refines_agg:
  assumes "links_reach outs s" "links_step outs s t"
  shows "agg_step outs (abs_links s) (abs_links t) \<and> agg_reach outs (abs_links t)"
proof
  show st: "agg_step outs (abs_links s) (abs_links t)"
    using assms(2) links_reach_inv [OF assms(1)] by (rule links_step_simulates)
  show "agg_reach outs (abs_links t)"
    using links_reach_abs [OF assms(1)] st by (rule agg_reach.step)
qed

section \<open>Witnesses\<close>

theorem links_refines_agg_witness:
  "agg_step [Inr [anime_1990], Inr [anime_1991]]
     (abs_links (then_cb 2 0 [anime_1990] links_init))
     (abs_links (then_cb 2 1 [anime_1991] (then_cb 2 0 [anime_1990] links_init))) \<and>
   outcome (abs_links (then_cb 2 1 [anime_1991] (then_cb 2 0 [anime_1990] links_init))) =
     Some {#anime_1990, anime_1991#}"
proof -
  have "links_step [Inr [anime_1990], Inr [anime_1991]] (then_cb 2 0 [anime_1990] links_init)
          (then_cb 2 1 [anime_1991] (then_cb 2 0 [anime_1990] links_init))"
    by (rule links_step_at) (simp_all add: links_init_def)
  then have "agg_step [Inr [anime_1990], Inr [anime_1991]]
     (abs_links (then_cb 2 0 [anime_1990] links_init))
     (abs_links (then_cb 2 1 [anime_1991] (then_cb 2 0 [anime_1990] links_init)))"
    using links_refines_agg [OF links_reach_first(1) [of "[anime_1990]" "[anime_1991]"]] by blast
  moreover have "outcome (abs_links (then_cb 2 1 [anime_1991] (then_cb 2 0 [anime_1990] links_init))) =
     Some {#anime_1990, anime_1991#}"
    by (simp add: abs_links_def links_init_def)
  ultimately show ?thesis by blast
qed

end
