(* ===== verification/Json.thy ===== *)
theory Json
  imports Prelude
begin

text \<open>
  JSON values and the library function \<open>JSON.stringify\<close>, which the output
  writer of \<open>src/main.js\<close> calls, modelled from the ECMAScript specification for
  the values the program has: strings, arrays and objects, whose properties keep
  their order and leave out a property holding \<open>undefined\<close>.  Characters are
  bytes (the UTF-8 encoding of the text), which \<open>JSON.stringify\<close> copies except
  for the quote, the backslash and the control characters.
\<close>

section \<open>Values and \<open>JSON.stringify\<close>\<close>

datatype json = JStr string | JArr "json list" | JObj "(string \<times> json) list"

abbreviation bslash :: char where
  "bslash \<equiv> CHR 0x5C"

definition hex_digit :: "nat \<Rightarrow> char" where
  "hex_digit n = ''0123456789abcdef'' ! n"

text \<open>One character of a string literal: the quote and the backslash escaped,
  the control characters with their short escape or as \<open>\u00XX\<close>.\<close>

definition json_char :: "char \<Rightarrow> string" where
  "json_char c =
     (if c = quot \<or> c = bslash then [bslash, c]
      else if of_char c < (32::nat) then
        (case map_of [(CHR 0x08, CHR ''b''), (CHR 0x09, CHR ''t''), (CHR 0x0A, CHR ''n''),
                      (CHR 0x0C, CHR ''f''), (CHR 0x0D, CHR ''r'')] c of
           Some e \<Rightarrow> [bslash, e]
         | None \<Rightarrow> [bslash, CHR ''u'', CHR ''0'', CHR ''0'',
                    hex_digit (of_char c div 16), hex_digit (of_char c mod 16)])
      else [c])"

definition json_quote :: "string \<Rightarrow> string" where
  "json_quote s = [quot] @ concat (map json_char s) @ [quot]"

fun stringify :: "json \<Rightarrow> string" where
  "stringify (JStr s) = json_quote s"
| "stringify (JArr xs) = ''['' @ js_join '','' (map stringify xs) @ '']''"
| "stringify (JObj kvs) =
     ''{'' @ js_join '','' (map (\<lambda>(k, v). json_quote k @ '':'' @ stringify v) kvs) @ ''}''"

fun json_keys :: "json \<Rightarrow> string list" where
  "json_keys (JObj kvs) = map fst kvs"
| "json_keys _ = []"

text \<open>A property whose value may be \<open>undefined\<close>: absent from the output then.\<close>

fun js_prop :: "string \<Rightarrow> json option \<Rightarrow> (string \<times> json) list" where
  "js_prop k None = []"
| "js_prop k (Some v) = [(k, v)]"

section \<open>Lemmas\<close>

lemma js_prop_map_option [simp]:
  "js_prop k (map_option f x) = (case x of None \<Rightarrow> [] | Some v \<Rightarrow> [(k, f v)])"
  by (cases x) auto

end
