(* ===== verification/Output.thy ===== *)
theory Output
  imports Anime Json
begin

text \<open>
  The output writer of \<open>src/main.js\<close> (lines 151--158): when \<open>all()\<close> resolves
  with the list \<open>a\<close>, the program writes \<open>JSON.stringify(a)\<close> to
  \<open>./output.json\<close> and prints \<open>"Parsed " + a.length + " anime. Written to
  output.json"\<close>.  \<open>JSON.stringify\<close> and the conversion of a number to a string
  are library behaviour, modelled here from the ECMAScript specification for the
  values the program has: strings, arrays, and objects whose properties appear in
  the order the code creates them, a property holding \<open>undefined\<close> being left
  out.  That order is the code's: a theme is the object literal of \<open>parseTable\<close>
  (lines 138--144), an anime the literal \<open>{id, title}\<close> of \<open>parseAnime\<close>
  (lines 107--110), then \<open>themes\<close> (lines 113, 115), then \<open>year\<close> (line 72).
  Characters are bytes (the UTF-8 encoding of the text), which
  \<open>JSON.stringify\<close> copies except for the quote, the backslash and the control
  characters.
\<close>

section \<open>The records as the code builds them\<close>

text \<open>\<open>{name, link, type: ..., episodes, notes}\<close> of \<open>parseTable\<close>.\<close>

definition theme_json :: "theme \<Rightarrow> json" where
  "theme_json t = JObj
     ([(''name'', JStr (name t))] @ js_prop ''link'' (map_option JStr (link t)) @
      [(''type'', JStr (case type t of Opening \<Rightarrow> ''opening'' | Ending \<Rightarrow> ''ending'')),
       (''episodes'', JStr (episodes t)), (''notes'', JStr (notes' t))])"

text \<open>\<open>{id: malId, title}\<close>, then \<open>theme.themes = ...\<close>, then
  \<open>parsed.year = n\<close>.\<close>

definition anime_json :: "anime \<Rightarrow> json" where
  "anime_json a = JObj
     (js_prop ''id'' (map_option JStr (anime_id a)) @ [(''title'', JStr (title a))] @
      js_prop ''themes'' (map_option (\<lambda>ts. JArr (map theme_json ts)) (themes a)) @
      js_prop ''year'' (map_option JStr (anime_year a)))"

section \<open>The report\<close>

text \<open>\<open>a.length\<close> in a string: its decimal digits.\<close>

definition dec_digits :: string where
  "dec_digits = ''0123456789''"

fun nat_str :: "nat \<Rightarrow> string" where
  "nat_str n = (if n < 10 then [dec_digits ! n] else nat_str (n div 10) @ [dec_digits ! (n mod 10)])"

text \<open>The \<open>.then\<close> callback of the command-line run: the file written, its
  contents, and the console line.\<close>

definition main_output :: "anime list \<Rightarrow> string \<times> string \<times> string" where
  "main_output a = (''./output.json'', stringify (JArr (map anime_json a)),
     ''Parsed '' @ nat_str (length a) @ '' anime. Written to output.json'')"

section \<open>Lemmas\<close>

lemma json_keys_anime:
  "json_keys (anime_json a) =
   (if anime_id a = None then [] else [''id'']) @ [''title''] @
   (if themes a = None then [] else [''themes'']) @ (if anime_year a = None then [] else [''year''])"
  by (cases "anime_id a"; cases "themes a"; cases "anime_year a") (simp_all add: anime_json_def)

section \<open>Properties of the output writer\<close>

text \<open>
  C23. A heading followed by neither a paragraph nor a table (spec, 4.3, expects the
  table to be probed for) is parsed without error, and the object written for it,
  once \<open>year(n)\<close> has stamped it (\<open>parsed.year = n\<close>), has no \<open>themes\<close>
  property: its properties are \<open>id\<close> (when the link has an id segment),
  \<open>title\<close> and \<open>year\<close> (when the year link has a year segment), in that order.
\<close>

theorem no_candidate_output:
  assumes "heading_href h = Some href"
    and "tag_name (next_elem rest) \<noteq> Some ''P''" "tag_name (next_elem rest) \<noteq> Some ''TABLE''"
  shows "\<exists>a. parseAnime (h # rest) = Inr a \<and>
    json_keys (anime_json (a\<lparr>anime_year := n\<rparr>)) =
      (if anime_id a = None then [] else [''id'']) @ [''title''] @ (if n = None then [] else [''year''])"
  using assms by (simp add: parseAnime_href json_keys_anime)

section \<open>Witnesses\<close>

theorem no_candidate_output_witness:
  "json_keys (anime_json ((projr (parseAnime [mal_heading, Elem ''h3'' [] next_heading_kids]))
     \<lparr>anime_year := Some ''2009''\<rparr>)) = [''id'', ''title'', ''year'']"
proof -
  have h: "heading_href mal_heading = Some ''https://myanimelist.net/anime/9253/Steins_Gate''"
    by (simp add: heading_href_def mal_heading_def)
  have p: "tag_name (next_elem [Elem ''h3'' [] next_heading_kids]) \<noteq> Some ''P''"
    and t: "tag_name (next_elem [Elem ''h3'' [] next_heading_kids]) \<noteq> Some ''TABLE''"
    by simp_all
  obtain a where a: "parseAnime [mal_heading, Elem ''h3'' [] next_heading_kids] = Inr a"
    "json_keys (anime_json (a\<lparr>anime_year := Some ''2009''\<rparr>)) =
       (if anime_id a = None then [] else [''id'']) @ [''title''] @ [''year'']"
    using no_candidate_output [OF h p t, of "Some ''2009''"] by auto
  have "anime_id a = Some ''9253''"
    using a(1) h by (auto simp: parseAnime_href js_index_def)
  with a show ?thesis by simp
qed

end
