(* ===== verification/Process.thy ===== *)
theory Process
  imports Orchestrator Output
begin

text \<open>
  The command-line run of \<open>src/main.js\<close> as a process (lines 36--57, 80--97 and
  151--158): \<open>new ThemeParser().all().then(write)\<close>, with no rejection handler
  anywhere.  The process is a small-step relation over \<open>cli_state\<close>: it runs the
  \<open>parseLinks\<close> callbacks one at a time, writes the output when the last one
  resolves the promise, and crashes on the first unhandled rejection (Node's default
  since version 15 is to terminate the process on an unhandled rejection).
  A process with nothing left to do exits: a \<open>Running\<close> state without successor is
  a silent exit, with no output file and no message.

  Where the rejections come from: a failed index fetch rejects \<open>all()\<close> before any
  year starts; a year link without \<open>href\<close> makes its \<open>async\<close> \<open>each\<close> callback
  throw synchronously, which rejects that callback's promise before any fetch has
  completed; a failed year fetch (network error, missing page field, a
  \<open>parseAnime\<close> exception) rejects the \<open>year\<close> promise whenever it completes.
\<close>

section \<open>States and steps\<close>

datatype cli_state =
  Running links_state
| Crashed js_error
| Wrote "string \<times> string \<times> string"

text \<open>\<open>new ThemeParser()\<close> (lines 27--30) sets \<open>this.baseUrl\<close>, which no method
  reads: every request writes its URL out in full.\<close>

definition theme_parser_base_url :: string where
  "theme_parser_base_url = ''https://reddit.com''"

text \<open>The synchronous part of \<open>all()\<close> and \<open>parseLinks\<close>: the index fetch, then the
  start of every year; a link without \<open>href\<close> crashes before any callback.\<close>

definition cli_start :: "http \<Rightarrow> loader \<Rightarrow> cli_state" where
  "cli_start get load =
     (case get \<lparr>url = index_url, user_agent = scraper_agent\<rparr> of
        Inl e \<Rightarrow> Crashed e
      | Inr None \<Rightarrow> Crashed TypeError
      | Inr (Some html) \<Rightarrow>
          (if list_ex (\<lambda>l. attr ''href'' l = None) (select_desc ''h3'' ''a'' (load (getHTML html)))
           then Crashed TypeError else Running links_init))"

text \<open>The outcomes of the year fetches the callbacks see (none when \<open>all()\<close> fails).\<close>

definition cli_outs :: "http \<Rightarrow> loader \<Rightarrow> anime list js_result list" where
  "cli_outs get load = (case all_start get load of Inl e \<Rightarrow> [] | Inr outs \<Rightarrow> outs)"

text \<open>
  One event of the run: the callback of a successful year fetch that does not yet
  resolve; the last callback, which resolves \<open>parseLinks\<close>, after which \<open>all()\<close>
  returns and the \<open>.then\<close> of the command-line run writes the file and the
  message; a year promise that rejects, unhandled.
\<close>

inductive cli_step :: "anime list js_result list \<Rightarrow> cli_state \<Rightarrow> cli_state \<Rightarrow> bool"
  for outs where
  callback: "links_step outs s t \<Longrightarrow> resolved t = None \<Longrightarrow> cli_step outs (Running s) (Running t)"
| resolve_write: "links_step outs s t \<Longrightarrow> resolved t = Some r \<Longrightarrow>
    cli_step outs (Running s) (Wrote (main_output r))"
| reject: "i < length outs \<Longrightarrow> outs ! i = Inl e \<Longrightarrow> cli_step outs (Running s) (Crashed e)"

inductive cli_reach :: "http \<Rightarrow> loader \<Rightarrow> cli_state \<Rightarrow> bool"
  for get load where
  init: "cli_reach get load (cli_start get load)"
| step: "cli_reach get load c \<Longrightarrow> cli_step (cli_outs get load) c c' \<Longrightarrow> cli_reach get load c'"

section \<open>Lemmas\<close>

lemma base_url_unused:
  "starts_with index_url theme_parser_base_url \<and>
   starts_with (''https://reddit.com'' @ href @ ''.json'') theme_parser_base_url"
  by (simp add: index_url_def theme_parser_base_url_def)

lemma cli_step_from_Running: "cli_step outs c c' \<Longrightarrow> \<exists>s. c = Running s"
  by (induction rule: cli_step.induct) auto

lemma cli_start_outs:
  "cli_start get load = Running s \<Longrightarrow> all_start get load = Inr (cli_outs get load) \<and> s = links_init"
  by (auto simp: cli_start_def all_start_def cli_outs_def split: sum.splits option.splits if_splits)

lemma cli_start_not_Wrote: "cli_start get load \<noteq> Wrote w"
  by (simp add: cli_start_def split: sum.split option.split)

text \<open>Every running state is a reachable state of \<open>parseLinks\<close> that has not
  resolved; every written output is that of a resolved value of \<open>parseLinks\<close>.\<close>

lemma cli_reach_states:
  assumes "cli_reach get load c"
  shows "(\<forall>s. c = Running s \<longrightarrow> links_reach (cli_outs get load) s \<and> resolved s = None) \<and>
    (\<forall>w. c = Wrote w \<longrightarrow> (\<exists>s r. links_reach (cli_outs get load) s \<and> resolved s = Some r \<and> w = main_output r))"
  using assms
proof (induction rule: cli_reach.induct)
  case init
  show ?case
    using cli_start_outs [of get load] links_reach.init cli_start_not_Wrote
    by (cases "cli_start get load") (auto simp: links_init_def)
next
  case (step c c')
  from step.hyps(2) show ?case
  proof cases
    case (callback s t)
    with step.IH show ?thesis by (auto intro: links_reach.step)
  next
    case (resolve_write s t r)
    with step.IH show ?thesis by (auto intro: links_reach.step)
  next
    case (reject i e s)
    then show ?thesis by simp
  qed
qed

lemma cli_written:
  assumes "cli_reach get load (Wrote w)"
  shows "\<exists>r. w = main_output r \<and> list_all (\<lambda>x. \<not> isl x) (cli_outs get load) \<and>
    mset r = mset (concat (map projr (cli_outs get load)))"
  using cli_reach_states [OF assms] resolved_value by blast

lemma cli_crashed:
  assumes "cli_reach get load c"
  shows "\<forall>e. c = Crashed e \<longrightarrow> (\<exists>i < length (cli_outs get load). cli_outs get load ! i = Inl e) \<or>
    cli_start get load = Crashed e"
  using assms
proof (induction rule: cli_reach.induct)
  case init
  then show ?case by simp
next
  case (step c c')
  from step.hyps(2) show ?case
    by cases auto
qed

text \<open>From a running state of a run whose fetches all succeed, some order of the
  remaining callbacks writes the output.\<close>

lemma cli_lift_path:
  assumes "(links_step outs)\<^sup>*\<^sup>* s t" "resolved s = None" "resolved t \<noteq> None"
  shows "\<exists>r. (cli_step outs)\<^sup>*\<^sup>* (Running s) (Wrote (main_output r))"
  using assms
proof (induction rule: converse_rtranclp_induct)
  case base
  then show ?case by simp
next
  case (step s s1)
  show ?case
  proof (cases "resolved s1")
    case None
    then obtain r where "(cli_step outs)\<^sup>*\<^sup>* (Running s1) (Wrote (main_output r))"
      using step.IH step.prems(2) by blast
    moreover have "cli_step outs (Running s) (Running s1)"
      using step.hyps(1) None by (rule cli_step.callback)
    ultimately show ?thesis
      by (meson converse_rtranclp_into_rtranclp)
  next
    case (Some r)
    have "cli_step outs (Running s) (Wrote (main_output r))"
      using step.hyps(1) Some by (rule cli_step.resolve_write)
    then show ?thesis by blast
  qed
qed


lemma cli_start_cases:
  assumes "all_start get load = Inr outs"
  shows "cli_start get load = Running links_init \<or>
    (cli_start get load = Crashed TypeError \<and> (\<exists>j < length outs. outs ! j = Inl TypeError))"
proof -
  obtain html where h: "get \<lparr>url = index_url, user_agent = scraper_agent\<rparr> = Inr (Some html)"
    and o: "outs = map (dispatch get load) (select_desc ''h3'' ''a'' (load (getHTML html)))"
    using assms by (auto simp: all_start_def split: sum.splits option.splits)
  let ?links = "select_desc ''h3'' ''a'' (load (getHTML html))"
  show ?thesis
  proof (cases "list_ex (\<lambda>l. attr ''href'' l = None) ?links")
    case True
    then obtain j where "j < length ?links" "attr ''href'' (?links ! j) = None"
      by (auto simp: list_ex_iff in_set_conv_nth)
    then have "j < length outs \<and> outs ! j = Inl TypeError"
      using o by (simp add: dispatch_def)
    with True h show ?thesis by (auto simp: cli_start_def)
  next
    case False
    with h show ?thesis by (simp add: cli_start_def)
  qed
qed

lemma cli_outs_eq: "all_start get load = Inr outs \<Longrightarrow> cli_outs get load = outs"
  by (simp add: cli_outs_def)

lemma cli_no_step_empty: "\<not> cli_step [] c c'"
proof
  assume "cli_step [] c c'"
  then show False
    by cases (auto elim: links_step.cases)
qed

section \<open>Properties of the command-line run\<close>

text \<open>
  C24. A run whose index lists at least one year and whose fetches all succeed
  never crashes: every state it reaches is still running or has written
  \<open>./output.json\<close> with a permutation of all the years' records, and from every
  state it reaches some order of the remaining callbacks writes the output.
\<close>

theorem cli_success:
  assumes "all_start get load = Inr outs" "outs \<noteq> []" "list_all (\<lambda>x. \<not> isl x) outs"
    and "cli_reach get load c"
  shows "((\<exists>s. c = Running s) \<or> (\<exists>r. c = Wrote (main_output r) \<and> mset r = mset (concat (map projr outs)))) \<and>
    (\<exists>r. (cli_step outs)\<^sup>*\<^sup>* c (Wrote (main_output r)))"
proof (cases c)
  case (Running s)
  have "links_reach outs s" "resolved s = None"
    using cli_reach_states [OF assms(4)] Running cli_outs_eq [OF assms(1)] by auto
  moreover obtain t where "(links_step outs)\<^sup>*\<^sup>* s t" "resolved t \<noteq> None"
    using progress_from [OF \<open>links_reach outs s\<close> assms(2,3)] by blast
  ultimately show ?thesis
    using Running cli_lift_path by blast
next
  case (Crashed e)
  have "\<not> isl (outs ! j)" if "j < length outs" for j
    using assms(3) that by (simp add: list_all_length)
  then have "cli_start get load \<noteq> Crashed e" "\<not> (\<exists>j < length outs. outs ! j = Inl e)"
    using cli_start_cases [OF assms(1)] by fastforce+
  with cli_crashed [OF assms(4)] Crashed cli_outs_eq [OF assms(1)] show ?thesis by blast
next
  case (Wrote w)
  then show ?thesis
    using cli_written [of get load w] assms(4) cli_outs_eq [OF assms(1)] by auto
qed

text \<open>
  C25. A run in which some year fetch fails (or some year link has no \<open>href\<close>)
  never writes any output: no state it reaches has written, and from every state it
  reaches the process can crash with the error of a failed fetch.
\<close>

theorem cli_failure:
  assumes "all_start get load = Inr outs" "i < length outs" "isl (outs ! i)"
    and "cli_reach get load c"
  shows "(\<forall>w. c \<noteq> Wrote w) \<and>
    (\<exists>e. (cli_step outs)\<^sup>*\<^sup>* c (Crashed e) \<and> (\<exists>j < length outs. outs ! j = Inl e))"
proof -
  have nw: "c \<noteq> Wrote w" for w
    using cli_written [of get load w] assms cli_outs_eq [OF assms(1)]
    by (auto simp: list_all_length)
  show ?thesis
  proof (cases c)
    case (Running s)
    obtain e where e: "outs ! i = Inl e"
      using assms(3) by (cases "outs ! i") auto
    have "cli_step outs c (Crashed e)"
      unfolding Running using assms(2) e by (rule cli_step.reject)
    with nw assms(2) e show ?thesis by blast
  next
    case (Crashed e)
    then have "\<exists>j < length outs. outs ! j = Inl e"
      using cli_crashed [OF assms(4)] cli_start_cases [OF assms(1)] cli_outs_eq [OF assms(1)]
      by fastforce
    with nw Crashed show ?thesis by blast
  next
    case (Wrote w)
    with nw show ?thesis by blast
  qed
qed

text \<open>
  C26. An index page without year links: the process never leaves its initial state
  and has nothing left to do, so it exits normally without writing
  \<open>./output.json\<close> and without a message.
\<close>

theorem cli_empty_index:
  assumes "all_start get load = Inr []" "cli_reach get load c"
  shows "c = Running links_init \<and> (\<forall>c'. \<not> cli_step [] c c')"
  using assms(2)
proof (induction rule: cli_reach.induct)
  case init
  then show ?case
    using cli_start_cases [OF assms(1)] cli_no_step_empty by auto
next
  case (step c c')
  then show ?case
    using cli_no_step_empty cli_outs_eq [OF assms(1)] by auto
qed

end
