(* ===== verification/Spec2Isabelle.thy ===== *)
theory Spec2Isabelle
  imports Aggregate Process
begin

text \<open>
  \<^bold>\<open>A verification development of the AnimeThemes scraper\<close> (\<open>src/main.js\<close>).

  \<^bold>\<open>The program.\<close>  \<open>ThemeParser.all\<close> fetches the wiki's year index as JSON,
  unescapes the embedded HTML with \<open>getHTML\<close> and loads it with cheerio;
  \<open>parseLinks\<close> starts \<open>year\<close> for every \<open>h3 a\<close> link, concurrently, and
  collects the results in \<open>this.animes\<close> with the completion counter
  \<open>this.finl\<close>, resolving when the counter reaches the number of links.
  \<open>year(n)\<close> fetches one year page (\<open>biribiri\<close>) and calls \<open>parseAnime\<close> on
  every \<open>h3\<close> heading; \<open>parseAnime\<close> reads the MyAnimeList id and title of the
  heading's anchor and hands the table that follows the heading (directly, or after a
  paragraph of alternative titles) to \<open>parseTable\<close>, which probes the following
  siblings for a \<open>TABLE\<close> and turns each body row into a theme.

  \<^bold>\<open>Theories and the code they model.\<close>
  \<^item> \<open>Prelude\<close>: the run-time errors (\<open>js_error\<close>: \<open>TypeError\<close>,
    \<open>RangeError\<close>, \<open>NetworkError\<close>) and results \<open>js_error + 'a\<close>, and the
    JavaScript built-ins the code calls (\<open>startsWith\<close>, \<open>includes\<close>,
    \<open>split\<close>, indexing with \<open>undefined\<close>, \<open>toUpperCase\<close>, \<open>'' + undefined\<close>), and
    \<open>split\<close> with a string separator and \<open>join\<close> for the reference of
    \<open>replaceAll\<close>.
  \<^item> \<open>Normalizer\<close>: \<open>replaceAll\<close> (the global \<open>RegExp\<close> replacement, for the
    literal patterns the code passes) and \<open>getHTML\<close>.  Lemmas: the escape round
    trip of the quote entity (C11), no escaped bracket survives \<open>getHTML\<close> (C10),
    no other entity is touched (C21), equivalence with the reference
    \<open>split(find).join(replace)\<close> (C27).
  \<^item> \<open>Dom\<close>: the markup tree (\<open>node\<close>) and the cheerio calls the code makes,
    modelled from cheerio's documented behaviour (a library, not repository code).
    A selection that must move with \<open>.next()\<close> is a cursor: the element followed by
    its later siblings.
  \<^item> \<open>Table\<close>: the \<open>Theme\<close> record (\<open>theme\<close>, \<open>song_type\<close>), one row
    (\<open>parse_row\<close>), the rows of a table (\<open>table_rows\<close>) and \<open>parseTable\<close> as a
    \<open>partial_function (option)\<close>, characterised by the total search
    \<open>find_table\<close>.  Lemmas: exactly when the probe returns (C5), the wiki's table
    markup parses back to its entries (C3).
  \<^item> \<open>Anime\<close>: the \<open>Anime\<close> record (\<open>anime\<close>, \<open>themes = None\<close> for the
    missing property) and \<open>parseAnime\<close> with its three branches and its errors.
    Lemmas: the table branch (C4), the paragraph branch (C12), the errors
    (C13), a paragraph without its own table (C18), no candidate (C19).
  \<^item> \<open>Year\<close>: \<open>biribiri\<close> against an abstract HTTP function and loader,
    the \<open>each\<close> loop of \<open>year\<close> (\<open>year_each\<close>, an exception leaves the loop)
    and \<open>year\<close>.  Lemmas: the result (C6), the errors (C14), the records (C15).
  \<^item> \<open>Orchestrator\<close>: \<open>parseLinks\<close>'s shared state (\<open>links_state\<close>), its
    \<open>.then\<close> callback (\<open>then_cb\<close>), the callbacks running one at a time in any
    completion order (the step relation \<open>links_step\<close>, reachability
    \<open>links_reach\<close>), the start of the fetches (\<open>dispatch\<close>, \<open>all_start\<close>).
    Lemmas: what a resolved value is (C2), the hang on a failed fetch (C7),
    progress (C16), the counter (C17), each year's records stay together and in
    page order, in the order the fetches completed (C28).
  \<^item> \<open>Aggregate\<close>: the contract of \<open>parseLinks\<close> (a multiset of collected
    records, the set of finished links, the outcome, with the step \<open>agg_step\<close>),
    the abstraction \<open>abs_links\<close> of the code's state, and the forward simulation:
    every callback is a contract step (C9).
  \<^item> \<open>Json\<close>: JSON values and \<open>JSON.stringify\<close> (\<open>stringify\<close>, library
    behaviour modelled from ECMAScript).
  \<^item> \<open>Output\<close>: the command-line run's \<open>.then\<close> callback (\<open>main_output\<close>:
    the file written, its contents, the console line) and the objects the code
    builds for a theme and an anime (\<open>theme_json\<close>, \<open>anime_json\<close>: property
    order and omitted \<open>undefined\<close> properties).  Lemma: a heading with no table
    candidate is written without \<open>themes\<close> (C23).
  \<^item> \<open>Process\<close>: the command-line run as a process (\<open>cli_state\<close>: running,
    crashed, written), its synchronous start (\<open>cli_start\<close>: the index fetch and
    the start of the year fetches, a link without \<open>href\<close> throwing at once) and its
    events (\<open>cli_step\<close>: a callback, the last callback with the write, an
    unhandled rejection that terminates Node).  Lemmas: a run whose fetches all
    succeed can only write and always can (C24), a run with a failed fetch never
    writes and can always crash (C25), an index without links exits silently
    (C26).
  \<^item> This theory: an end-to-end fixture site and the properties that span the
    components: the whole run on the fixture (C1), one bad page stalls the run
    (C8), the year segment of a link (C20), the output file of the fixture run
    (C22).

  \<^bold>\<open>Modelling choices.\<close>  Errors are values: every \<open>undefined.x\<close> of the code is
  a \<open>TypeError\<close> branch, a rejected request a \<open>NetworkError\<close>.  The recursion
  of \<open>parseTable\<close> has no bound in the code; the model does not bound it either:
  \<open>None\<close> of the \<open>partial_function\<close> is the recursion that does not stop, which
  the running program reports as a \<open>RangeError\<close> when the stack overflows, and
  \<open>parseAnime\<close> maps it to that error.  No fuel is chosen anywhere.  The
  network is a function from requests to results and cheerio's parser a function
  from strings to forests, so the theorems hold for every server and every page.
  The year fetches are concurrent, but each callback runs to its end, so the only
  nondeterminism is the order of completions, which \<open>links_step\<close> leaves free.
  \<open>year\<close> assigns \<open>this.$\<close>, which \<open>parseAnime\<close> then uses; the loop that
  uses it is synchronous, so the model passes the page explicitly.

  \<^bold>\<open>Not modelled.\<close>  The file system and the console: \<open>main_output\<close>
  returns what the run writes and prints rather than performing it, and a
  crash is the state \<open>Crashed\<close>, not Node's report of it; Node versions
  before 15, which only warn on an unhandled rejection, are not modelled.  The
  HTML parser of cheerio and HTML entity decoding: the loader stands for them.  Reddit's JSON envelope
  (\<open>resp.data.data.content_html\<close>): the HTTP function returns the field
  (\<open>None\<close> for a missing one).
\<close>

section \<open>Fixtures\<close>

text \<open>
  A year index listing 1990 and 1991 and two year pages with one anime each, whose
  table has an opening and an ending (spec, section 8).  The network answers the
  three page requests; the loader stands for cheerio on the three unescaped pages.
\<close>

definition year_link :: "string \<Rightarrow> node" where
  "year_link y = Elem ''h3'' [] [Elem ''a'' [(''href'', ''/r/AnimeThemes/wiki/'' @ y)] [Text y]]"

definition fixture_entries :: "entry list" where
  "fixture_entries =
     [(''OP1 '' @ [quot] @ ''x'' @ [quot], ''https://animethemes.moe/video/X-OP1.webm'', ''1-12'', ''''),
      (''ED1 '' @ [quot] @ ''y'' @ [quot], ''https://animethemes.moe/video/X-ED1.webm'', ''1-12'', ''Spoiler'')]"

definition fixture_heading :: "string \<Rightarrow> string \<Rightarrow> node" where
  "fixture_heading i t =
     Elem ''h3'' [] [Elem ''a'' [(''href'', ''https://myanimelist.net/anime/'' @ i @ ''/'' @ t)] [Text t]]"

definition fixture_page :: "string \<Rightarrow> string \<Rightarrow> node list" where
  "fixture_page i t = [fixture_heading i t, nl, wiki_table fixture_entries]"

definition fixture_http :: http where
  "fixture_http r =
     (if url r = index_url then Inr (Some ''&lt;index&gt;'')
      else if url r = ''https://reddit.com/r/AnimeThemes/wiki/1990.json'' then Inr (Some ''&lt;1990&gt;'')
      else if url r = ''https://reddit.com/r/AnimeThemes/wiki/1991.json'' then Inr (Some ''&lt;1991&gt;'')
      else Inl NetworkError)"

definition fixture_load :: loader where
  "fixture_load html =
     (if html = ''<index>'' then [year_link ''1990'', nl, year_link ''1991'']
      else if html = ''<1990>'' then fixture_page ''1'' ''A''
      else if html = ''<1991>'' then fixture_page ''2'' ''B''
      else [])"

text \<open>The 1991 page with an alternative-titles paragraph and no table.\<close>

definition stalled_page :: "node list" where
  "stalled_page = [fixture_heading ''2'' ''B'', nl, Elem ''p'' [] [Text ''Also known as C'']]"

definition stalled_load :: loader where
  "stalled_load html = (if html = ''<1991>'' then stalled_page else fixture_load html)"

definition expected :: "string \<Rightarrow> string \<Rightarrow> string \<Rightarrow> anime" where
  "expected y i t = \<lparr>anime_id = Some i, title = t, anime_year = Some y,
     themes = Some (map theme_of fixture_entries)\<rparr>"

text \<open>The text \<open>JSON.stringify\<close> gives one fixture record.\<close>

definition fixture_json :: "string \<Rightarrow> string \<Rightarrow> string \<Rightarrow> string" where
  \<open>fixture_json y i t =
     ''{"id":"'' @ i @ ''","title":"'' @ t @ ''","themes":[{"name":"OP1 '' @ [bslash] @ ''"x'' @
     [bslash] @ ''"","link":"https://animethemes.moe/video/X-OP1.webm","type":"opening",'' @
     ''"episodes":"1-12","notes":""},{"name":"ED1 '' @ [bslash] @ ''"y'' @ [bslash] @
     ''"","link":"https://animethemes.moe/video/X-ED1.webm","type":"ending",'' @
     ''"episodes":"1-12","notes":"Spoiler"}],"year":"'' @ y @ ''"}''\<close>

section \<open>Evaluating the fixtures\<close>

lemma fixture_entries_plain: "\<forall>e \<in> set fixture_entries. \<not> occurs ''&quot;'' (fst e)"
  by (simp add: fixture_entries_def)

lemma fixture_page_parse:
  assumes "CHR ''/'' \<notin> set i"
  shows "parseAnime (fixture_page i t) =
    Inr \<lparr>anime_id = Some i, title = t, anime_year = None, themes = Some (map theme_of fixture_entries)\<rparr>"
proof -
  have h: "heading_href (fixture_heading i t) = Some (''https://myanimelist.net/anime/'' @ i @ ''/'' @ t)"
    by (simp add: heading_href_def fixture_heading_def)
  have n: "next_elem [nl, wiki_table fixture_entries] =
           [Elem ''table'' [] (kids (wiki_table fixture_entries))]"
    by (simp add: wiki_table_def)
  have "table_rows [Elem ''table'' [] (kids (wiki_table fixture_entries))] = map theme_of fixture_entries"
    using wiki_table_rows [OF fixture_entries_plain] by (simp add: wiki_table_def)
  then show ?thesis
    using parseAnime_table_next [OF h n] unfolding mal_url_id [OF assms]
    by (simp add: fixture_page_def fixture_heading_def)
qed

lemma fixture_page_select: "select ''h3'' (fixture_page i t) = [fixture_page i t]"
  by (simp add: select_def fixture_page_def fixture_heading_def wiki_table_def fixture_entries_def)

lemma stalled_page_select: "select ''h3'' stalled_page = [stalled_page]"
  by (simp add: select_def stalled_page_def fixture_heading_def)

lemma stalled_page_parse: "parseAnime stalled_page = Inl RangeError"
  unfolding stalled_page_def
  by (rule parseAnime_range_error) (simp_all add: heading_href_def fixture_heading_def has_table_def)

lemmas fixture_defs = fixture_http_def index_url_def scraper_agent_def getHTML_def
  select_desc_def year_link_def dispatch_def js_index_def year_def biribiri_def

lemma all_start_fixture:
  "all_start fixture_http fixture_load =
   Inr [Inr [expected ''1990'' ''1'' ''A''], Inr [expected ''1991'' ''2'' ''B'']]"
  by (simp add: all_start_def fixture_load_def fixture_defs replaceAll_match
      fixture_page_select fixture_page_parse expected_def)

lemma all_start_stalled:
  "all_start fixture_http stalled_load =
   Inr [Inr [expected ''1990'' ''1'' ''A''], Inl RangeError]"
  by (simp add: all_start_def stalled_load_def fixture_load_def fixture_defs replaceAll_match
      fixture_page_select fixture_page_parse expected_def stalled_page_select stalled_page_parse)

lemma two_links_resolved:
  "{r. \<exists>s. links_reach [Inr xs, Inr ys] s \<and> resolved s = Some r} = {xs @ ys, ys @ xs}"
proof (rule set_eqI, rule iffI)
  let ?outs = "[Inr xs, Inr ys] :: anime list js_result list"
  fix r
  assume "r \<in> {r. \<exists>s. links_reach ?outs s \<and> resolved s = Some r}"
  then obtain s where s: "links_reach ?outs s" "resolved s = Some r" by blast
  obtain p where p: "distinct p" "set p = {..<length ?outs}"
      "r = concat (map (\<lambda>i. projr (?outs ! i)) p)"
    using resolved_order [OF s] by blast
  have "set p = {..<2}"
    using p(2) by simp
  with p(1) have "p = [0, 1] \<or> p = [1, 0]"
    by (rule two_orders)
  with p(3) show "r \<in> {xs @ ys, ys @ xs}"
    by (elim disjE) simp_all
next
  fix r
  assume r: "r \<in> {xs @ ys, ys @ xs}"
  have "resolved (then_cb 2 1 ys (then_cb 2 0 xs links_init)) = Some (xs @ ys)"
    "resolved (then_cb 2 0 xs (then_cb 2 1 ys links_init)) = Some (ys @ xs)"
    by (simp_all add: links_init_def)
  with links_reach_both have "xs @ ys \<in> {r. \<exists>s. links_reach [Inr xs, Inr ys] s \<and> resolved s = Some r}"
    "ys @ xs \<in> {r. \<exists>s. links_reach [Inr xs, Inr ys] s \<and> resolved s = Some r}"
    by blast+
  with r show "r \<in> {r. \<exists>s. links_reach [Inr xs, Inr ys] s \<and> resolved s = Some r}"
    by blast
qed

section \<open>Properties of the whole scraper\<close>

text \<open>
  C1. End to end: on the fixture site (an index linking 1990 and 1991, one anime with
  an opening and an ending per year), \<open>all()\<close> starts two fetches that yield the
  1990 and the 1991 record, each stamped with its year, its id from the MyAnimeList
  URL and its themes in table order; \<open>parseLinks\<close> resolves with exactly the two
  orders of these records and no other value.
\<close>

theorem scenario_two_years:
  "all_start fixture_http fixture_load =
     Inr [Inr [expected ''1990'' ''1'' ''A''], Inr [expected ''1991'' ''2'' ''B'']] \<and>
   {r. \<exists>s. links_reach [Inr [expected ''1990'' ''1'' ''A''], Inr [expected ''1991'' ''2'' ''B'']] s \<and>
          resolved s = Some r} =
     {[expected ''1990'' ''1'' ''A'', expected ''1991'' ''2'' ''B''],
      [expected ''1991'' ''2'' ''B'', expected ''1990'' ''1'' ''A'']} \<and>
   map type (the (themes (expected ''1990'' ''1'' ''A''))) = [Opening, Ending]"
proof -
  have run: "all_start fixture_http fixture_load =
     Inr [Inr [expected ''1990'' ''1'' ''A''], Inr [expected ''1991'' ''2'' ''B'']]"
    by (simp add: all_start_def fixture_load_def fixture_defs replaceAll_match
        fixture_page_select fixture_page_parse expected_def)
  show ?thesis
    using run two_links_resolved by (simp add: expected_def fixture_entries_def)
qed

text \<open>
  C22. End to end, as written: on the fixture site the command-line run writes to
  \<open>./output.json\<close> a JSON array of the two records, in one of the two completion
  orders and no other text, each with its id, title, themes (names with their
  double quotes escaped, links, types \<open>opening\<close> and \<open>ending\<close>) and year, in that
  property order, and prints \<open>Parsed 2 anime. Written to output.json\<close>.
\<close>

theorem scenario_output:
  "{main_output r | r s. links_reach (projr (all_start fixture_http fixture_load)) s \<and> resolved s = Some r} =
   {(''./output.json'', ''['' @ fixture_json ''1990'' ''1'' ''A'' @ '','' @ fixture_json ''1991'' ''2'' ''B'' @ '']'',
     ''Parsed 2 anime. Written to output.json''),
    (''./output.json'', ''['' @ fixture_json ''1991'' ''2'' ''B'' @ '','' @ fixture_json ''1990'' ''1'' ''A'' @ '']'',
     ''Parsed 2 anime. Written to output.json'')}"
proof -
  let ?e90 = "expected ''1990'' ''1'' ''A''" and ?e91 = "expected ''1991'' ''2'' ''B''"
  have "{main_output r | r s. links_reach (projr (all_start fixture_http fixture_load)) s \<and> resolved s = Some r} =
        main_output ` {r. \<exists>s. links_reach [Inr [?e90], Inr [?e91]] s \<and> resolved s = Some r}"
    unfolding all_start_fixture by auto
  also have "\<dots> = {main_output [?e90, ?e91], main_output [?e91, ?e90]}"
    unfolding two_links_resolved by simp
  also have "main_output [?e90, ?e91] =
    (''./output.json'', ''['' @ fixture_json ''1990'' ''1'' ''A'' @ '','' @ fixture_json ''1991'' ''2'' ''B'' @ '']'',
     ''Parsed 2 anime. Written to output.json'')"
    by (simp add: main_output_def anime_json_def theme_json_def json_quote_def json_char_def
        expected_def fixture_entries_def fixture_json_def dec_digits_def)
  also have "main_output [?e91, ?e90] =
    (''./output.json'', ''['' @ fixture_json ''1991'' ''2'' ''B'' @ '','' @ fixture_json ''1990'' ''1'' ''A'' @ '']'',
     ''Parsed 2 anime. Written to output.json'')"
    by (simp add: main_output_def anime_json_def theme_json_def json_quote_def json_char_def
        expected_def fixture_entries_def fixture_json_def dec_digits_def)
  finally show ?thesis .
qed

text \<open>
  C8. One bad page stalls everything: if a year page has a heading, after headings
  that parse, whose next element is a paragraph with no table after it, then the
  probe overflows the stack, that year's fetch rejects, and \<open>parseLinks\<close> never
  resolves, whatever the other years give.
\<close>

theorem stalled_page_blocks_run:
  assumes "get \<lparr>url = index_url, user_agent = scraper_agent\<rparr> = Inr (Some html)"
    and "l \<in> set (select_desc ''h3'' ''a'' (load (getHTML html)))"
    and "attr ''href'' l = Some h"
    and "biribiri get load (''/r/AnimeThemes/wiki/'' @ js_str (js_index (js_split CHR ''/'' h) 4)) = Inr doc"
    and "select ''h3'' doc = pre @ (hd3 # rest) # post"
    and "list_all (\<lambda>c. \<not> isl (parseAnime c)) pre"
    and "heading_href hd3 \<noteq> None" "tag_name (next_elem rest) = Some ''P''"
    and "\<not> has_table (next_sib (next_elem rest))"
    and "links_reach (projr (all_start get load)) s"
  shows "resolved s = None"
proof -
  let ?links = "select_desc ''h3'' ''a'' (load (getHTML html))"
  have outs: "projr (all_start get load) = map (dispatch get load) ?links"
    using assms(1) by (simp add: all_start_def)
  obtain j where j: "j < length ?links" "?links ! j = l"
    using assms(2) by (auto simp: in_set_conv_nth)
  have "parseAnime (hd3 # rest) = Inl RangeError"
    using assms(7-9) by (rule parseAnime_range_error)
  then have "year_each n [] (select ''h3'' doc) = Inl RangeError" for n
    unfolding year_each_Inl using assms(5,6) by blast
  then have "isl (dispatch get load l)"
    using assms(3,4) by (simp add: dispatch_def year_def)
  then show ?thesis
    using failed_fetch_blocks [OF assms(10), of j] outs j by simp
qed

text \<open>
  C20. Year links: a relative link \<open>/r/AnimeThemes/wiki/y\<close> whose year has no
  slash fetches the page of year \<open>y\<close>, stamped \<open>y\<close>; the same link written as an
  absolute URL fetches the page \<open>AnimeThemes\<close> and stamps its records with it,
  since the year is taken as the fifth segment of the raw \<open>href\<close>.
\<close>

theorem year_link_segment:
  assumes "CHR ''/'' \<notin> set y"
  shows "dispatch get load [Elem ''a'' [(''href'', ''/r/AnimeThemes/wiki/'' @ y)] k] =
           year get load (Some y) \<and>
         dispatch get load [Elem ''a'' [(''href'', ''https://www.reddit.com/r/AnimeThemes/wiki/'' @ y)] k] =
           year get load (Some ''AnimeThemes'')"
  using assms by (simp add: dispatch_def js_split_append_sep js_split_no_sep js_index_def)

section \<open>Witnesses\<close>

theorem stalled_page_blocks_run_witness:
  "resolved (then_cb 2 0 [expected ''1990'' ''1'' ''A''] links_init) = None"
proof -
  let ?s = "then_cb 2 0 [expected ''1990'' ''1'' ''A''] links_init"
  have r: "links_reach (projr (all_start fixture_http stalled_load)) ?s"
    unfolding all_start_stalled
    by (simp, rule links_reach.step [OF links_reach.init], rule links_step_at) (auto simp: links_init_def)
  have l: "[Elem ''a'' [(''href'', ''/r/AnimeThemes/wiki/1991'')] [Text ''1991'']] \<in> set (select_desc ''h3'' ''a'' (stalled_load (getHTML ''&lt;index&gt;'')))"
    by (simp add: stalled_load_def fixture_load_def getHTML_def replaceAll_match select_desc_def year_link_def)
  have h: "fixture_http \<lparr>url = index_url, user_agent = scraper_agent\<rparr> = Inr (Some ''&lt;index&gt;'')"
    by (simp add: fixture_http_def)
  have d: "biribiri fixture_http stalled_load
      (''/r/AnimeThemes/wiki/'' @ js_str (js_index (js_split CHR ''/'' ''/r/AnimeThemes/wiki/1991'') 4)) =
      Inr stalled_page"
    by (simp add: biribiri_def fixture_http_def index_url_def js_index_def getHTML_def replaceAll_match
        stalled_load_def)
  have p: "select ''h3'' stalled_page = [] @ (fixture_heading ''2'' ''B'' # [nl, Elem ''p'' [] [Text ''Also known as C'']]) # []"
    using stalled_page_select unfolding stalled_page_def by simp
  show ?thesis
    by (rule stalled_page_blocks_run [OF h l _ d p _ _ _ _ r])
      (simp_all add: fixture_heading_def heading_href_def has_table_def)
qed

theorem year_link_segment_witness:
  "CHR ''/'' \<notin> set ''2019'' \<and>
   dispatch fixture_http fixture_load
     [Elem ''a'' [(''href'', ''https://www.reddit.com/r/AnimeThemes/wiki/2019'')] []] =
   year fixture_http fixture_load (Some ''AnimeThemes'')"
  using year_link_segment [of "''2019''" fixture_http fixture_load "[]"] by simp

theorem cli_success_witness:
  "\<exists>r. (cli_step [Inr [expected ''1990'' ''1'' ''A''], Inr [expected ''1991'' ''2'' ''B'']])\<^sup>*\<^sup>*
     (cli_start fixture_http fixture_load) (Wrote (main_output r))"
  using cli_success [OF all_start_fixture _ _ cli_reach.init] by simp

theorem cli_failure_witness:
  "(\<forall>w. cli_start fixture_http stalled_load \<noteq> Wrote w) \<and>
   (\<exists>e. (cli_step [Inr [expected ''1990'' ''1'' ''A''], Inl RangeError])\<^sup>*\<^sup>*
      (cli_start fixture_http stalled_load) (Crashed e))"
  using cli_failure [OF all_start_stalled, of 1, OF _ _ cli_reach.init] by auto

theorem cli_empty_index_witness:
  "cli_start fixture_http (\<lambda>_. []) = Running links_init"
proof -
  have e: "all_start fixture_http (\<lambda>_. []) = Inr []"
    by (simp add: all_start_def fixture_http_def index_url_def select_desc_def)
  show ?thesis
    using cli_empty_index [OF e cli_reach.init] by simp
qed

end
